theory Spec2Isabelle
  imports Main
begin

section \<open>Exceptions\<close>

text \<open>
  The exceptions that \<^verbatim>\<open>scrape_properties\<close> can meet. \<open>ClientError\<close> stands for
  \<^verbatim>\<open>aiohttp.ClientError\<close> and its subclasses (connection failures and the
  \<^verbatim>\<open>ClientResponseError\<close> of \<^verbatim>\<open>raise_for_status\<close>), \<open>TimeoutError\<close> for
  \<^verbatim>\<open>asyncio.TimeoutError\<close>. \<open>AttributeError\<close> is what \<^verbatim>\<open>None.text\<close> and
  \<^verbatim>\<open>None.find\<close> raise, \<open>IndexError\<close> what \<^verbatim>\<open>price[0]\<close> raises on an empty
  result set, \<open>KeyError\<close> what \<^verbatim>\<open>self.base_url[website]\<close> raises, \<open>TypeError\<close>
  what the JSON serializer of the cache raises on a value that is not JSON data.
\<close>

datatype exn =
    ClientError string
  | TimeoutError
  | AttributeError
  | IndexError
  | KeyError string
  | TypeError
  | OtherError string

text \<open>The handler \<^verbatim>\<open>except (aiohttp.ClientError, asyncio.TimeoutError)\<close>.\<close>

fun is_transport :: "exn \<Rightarrow> bool" where
  "is_transport (ClientError _) = True"
| "is_transport TimeoutError = True"
| "is_transport _ = False"

text \<open>
  A Python list comprehension whose body may raise: elements are evaluated from left to
  right and the first exception leaves the comprehension.
\<close>

fun collect :: "('a \<Rightarrow> exn + 'b) \<Rightarrow> 'a list \<Rightarrow> exn + 'b list" where
  "collect f [] = Inr []"
| "collect f (x # xs) =
     (case f x of
        Inl e \<Rightarrow> Inl e
      | Inr y \<Rightarrow> (case collect f xs of Inl e \<Rightarrow> Inl e | Inr ys \<Rightarrow> Inr (y # ys)))"

section \<open>Page trees\<close>

text \<open>
  The tree that \<^verbatim>\<open>BeautifulSoup(html, "lxml")\<close> returns: a text node, or a tag with
  its name, the tokens of its \<^verbatim>\<open>class\<close> attribute and its children. \<open>Hidden\<close> is a
  string that \<^verbatim>\<open>.text\<close> leaves out: a comment, or the content of a \<^verbatim>\<open>script\<close> or
  \<^verbatim>\<open>style\<close> element below the tag that is asked for its text. Strings are byte strings
  in UTF-8.
\<close>

datatype node = Text string | Hidden string | Tag string "string list" "node list"

text \<open>All nodes below a node, in document order (the node itself excluded).\<close>

fun descendants :: "node \<Rightarrow> node list" where
  "descendants (Text s) = []"
| "descendants (Hidden s) = []"
| "descendants (Tag n cs ks) = concat (map (\<lambda>k. k # descendants k) ks)"

text \<open>
  \<^verbatim>\<open>find_all(name, class_=c)\<close> keeps the tags of that name that carry the class token
  \<open>c\<close>; without \<^verbatim>\<open>class_\<close> the name alone decides.
\<close>

fun matches :: "string \<Rightarrow> string option \<Rightarrow> node \<Rightarrow> bool" where
  "matches name c (Text s) = False"
| "matches name c (Hidden s) = False"
| "matches name None (Tag n cs ks) = (n = name)"
| "matches name (Some c) (Tag n cs ks) = (n = name \<and> c \<in> set cs)"

definition find_all :: "node \<Rightarrow> string \<Rightarrow> string option \<Rightarrow> node list" where
  "find_all nd name c = filter (matches name c) (descendants nd)"

text \<open>\<^verbatim>\<open>find\<close> returns the first match, or \<^verbatim>\<open>None\<close>.\<close>

definition find_first :: "node \<Rightarrow> string \<Rightarrow> string option \<Rightarrow> node option" where
  "find_first nd name c = (case find_all nd name c of [] \<Rightarrow> None | x # _ \<Rightarrow> Some x)"

text \<open>\<^verbatim>\<open>.text\<close>: the text strings below a node, concatenated.\<close>

fun get_text :: "node \<Rightarrow> string" where
  "get_text (Text s) = s"
| "get_text (Hidden s) = []"
| "get_text (Tag n cs ks) = concat (map get_text ks)"

text \<open>\<^verbatim>\<open>x.text\<close> where \<open>x\<close> is the result of a \<^verbatim>\<open>find\<close>: on \<^verbatim>\<open>None\<close> it raises.\<close>

fun text_of :: "node option \<Rightarrow> exn + string" where
  "text_of None = Inl AttributeError"
| "text_of (Some nd) = Inr (get_text nd)"

section \<open>String methods\<close>

text \<open>
  \<^verbatim>\<open>s.lstrip(chars)\<close> removes from the left every character that occurs in \<open>chars\<close>,
  until the first character that does not.
\<close>

definition lstrip :: "string \<Rightarrow> string \<Rightarrow> string" where
  "lstrip s chars = dropWhile (\<lambda>c. c \<in> set chars) s"

text \<open>
  The characters that \<^verbatim>\<open>str.isspace\<close> accepts, as their bytes in UTF-8: U+0009 to
  U+000D, U+001C to U+0020, U+0085, U+00A0, U+1680, U+2000 to U+200A, U+2028, U+2029,
  U+202F, U+205F and U+3000.
\<close>

definition white_space :: "string list" where
  "white_space =
     [[CHR 0x09], [CHR 0x0A], [CHR 0x0B], [CHR 0x0C], [CHR 0x0D],
      [CHR 0x1C], [CHR 0x1D], [CHR 0x1E], [CHR 0x1F], [CHR 0x20],
      [CHR 0xC2, CHR 0x85], [CHR 0xC2, CHR 0xA0], [CHR 0xE1, CHR 0x9A, CHR 0x80],
      [CHR 0xE2, CHR 0x80, CHR 0x80], [CHR 0xE2, CHR 0x80, CHR 0x81],
      [CHR 0xE2, CHR 0x80, CHR 0x82], [CHR 0xE2, CHR 0x80, CHR 0x83],
      [CHR 0xE2, CHR 0x80, CHR 0x84], [CHR 0xE2, CHR 0x80, CHR 0x85],
      [CHR 0xE2, CHR 0x80, CHR 0x86], [CHR 0xE2, CHR 0x80, CHR 0x87],
      [CHR 0xE2, CHR 0x80, CHR 0x88], [CHR 0xE2, CHR 0x80, CHR 0x89],
      [CHR 0xE2, CHR 0x80, CHR 0x8A], [CHR 0xE2, CHR 0x80, CHR 0xA8],
      [CHR 0xE2, CHR 0x80, CHR 0xA9], [CHR 0xE2, CHR 0x80, CHR 0xAF],
      [CHR 0xE2, CHR 0x81, CHR 0x9F], [CHR 0xE3, CHR 0x80, CHR 0x80]]"

text \<open>The length of the first of the given strings that the string begins with, or 0.\<close>

definition leading :: "string list \<Rightarrow> string \<Rightarrow> nat" where
  "leading ws s =
     (case List.find (\<lambda>w. take (length w) s = w) ws of
        None \<Rightarrow> 0
      | Some w \<Rightarrow> length w)"

function drop_leading :: "string list \<Rightarrow> string \<Rightarrow> string" where
  "drop_leading ws s =
     (if leading ws s = 0 then s else drop_leading ws (drop (leading ws s) s))"
  by pat_completeness auto
termination
proof (relation "measure (\<lambda>(ws, s). length s)")
  show "wf (measure (\<lambda>(ws, s). length s))" by simp
next
  fix ws :: "string list" and s :: string
  assume n: "leading ws s \<noteq> 0"
  then obtain w where "take (length w) s = w" and "length w \<noteq> 0"
    by (auto simp: leading_def find_Some_iff split: option.splits)
  then have "s \<noteq> []" by auto
  with n show "((ws, drop (leading ws s) s), (ws, s)) \<in> measure (\<lambda>(ws, s). length s)"
    by simp
qed

text \<open>\<^verbatim>\<open>s.strip()\<close> removes the white space at both ends.\<close>

definition strip :: "string \<Rightarrow> string" where
  "strip s = rev (drop_leading (map rev white_space) (rev (drop_leading white_space s)))"

text \<open>
  \<^verbatim>\<open>s.replace(old, new)\<close>: the occurrences of \<open>old\<close> are replaced from left to right,
  without overlap; an empty \<open>old\<close> matches before every character and at the end.
\<close>

function replace :: "string \<Rightarrow> string \<Rightarrow> string \<Rightarrow> string" where
  "replace s old new =
     (if old = [] then new @ concat (map (\<lambda>c. c # new) s)
      else if s = [] then []
      else if take (length old) s = old then new @ replace (drop (length old) s) old new
      else hd s # replace (tl s) old new)"
  by pat_completeness auto
termination
  by (relation "measure (\<lambda>(s, old, new). length s)") auto

text \<open>\<^verbatim>\<open>sep.join(xs)\<close>.\<close>

fun join :: "string \<Rightarrow> string list \<Rightarrow> string" where
  "join sep [] = []"
| "join sep [x] = x"
| "join sep (x # y # ys) = x @ sep @ join sep (y # ys)"

section \<open>The extraction branches of scrape_properties\<close>

text \<open>
  The dictionary \<^verbatim>\<open>{"owner": .., "price": .., "property_name": ..}\<close>. The price is
  a string in the magicbricks and makaan branches; the commonfloor branch stores the
  result set of \<^verbatim>\<open>td\<close> tags itself.
\<close>

datatype price_value = Str string | ResultSet "node list"

record listing =
  owner :: string
  price :: price_value
  property_name :: string

text \<open>The rupee sign U+20B9, in UTF-8.\<close>

definition rupee :: string where
  "rupee = [CHR 0xE2, CHR 0x82, CHR 0xB9]"

text \<open>
  The three-way \<^verbatim>\<open>zip\<close> followed by the dictionary display; \<^verbatim>\<open>zip\<close> stops with
  the shortest of its arguments.
\<close>

definition zip3 :: "'a list \<Rightarrow> 'b list \<Rightarrow> 'c list \<Rightarrow> ('a \<times> 'b \<times> 'c) list" where
  "zip3 xs ys zs = zip xs (zip ys zs)"

subsection \<open>magicbricks\<close>

text \<open>The body of the loop over the \<^verbatim>\<open>mb-srp__left\<close> containers (lines 122 to 153).\<close>

definition magicbricks_listing :: "node \<Rightarrow> exn + listing list" where
  "magicbricks_listing l =
     (let owner_names = find_all l ''div'' (Some ''mb-srp__card__ads'') in
      case collect (\<lambda>ow. case text_of (find_first ow ''div'' (Some ''mb-srp__card__ads--name'')) of
                            Inl e \<Rightarrow> Inl e
                          | Inr t \<Rightarrow> Inr (lstrip t ''Owner: '')) owner_names of
        Inl e \<Rightarrow> Inl e
      | Inr owners \<Rightarrow>
          let price_list = find_all l ''div'' (Some ''mb-srp__card__price--amount'');
              prices = map get_text price_list;
              property_names = map get_text (find_all l ''h2'' (Some ''mb-srp__card--title''))
          in Inr (map (\<lambda>(ow, pr, prop_name).
                         \<lparr>owner = ow, price = Str pr, property_name = prop_name\<rparr>)
                      (zip3 owners prices property_names)))"

definition magicbricks :: "node \<Rightarrow> exn + listing list" where
  "magicbricks soup =
     (case collect magicbricks_listing (find_all soup ''div'' (Some ''mb-srp__left'')) of
        Inl e \<Rightarrow> Inl e
      | Inr chunks \<Rightarrow> Inr (concat chunks))"

subsection \<open>makaan\<close>

text \<open>
  The body of the loop over the \<^verbatim>\<open>search-result-wrap\<close> containers (lines 159 to
  199). The denominations are computed first, then the price texts, then the names; each
  of the three comprehensions dereferences the result of a \<^verbatim>\<open>find\<close>.
\<close>

definition makaan_listing :: "node \<Rightarrow> exn + listing list" where
  "makaan_listing l =
     (let owner_elements = find_all l ''div'' (Some ''seller-info'');
          owners = map get_text owner_elements;
          price_elements = map (\<lambda>p. find_first p ''span'' (Some ''val''))
                               (find_all l ''td'' (Some ''price''))
      in case collect (\<lambda>p. text_of (find_first p ''span'' (Some ''unit'')))
                      (find_all l ''td'' (Some ''price'')) of
           Inl e \<Rightarrow> Inl e
         | Inr price_denominations \<Rightarrow>
            (case collect text_of price_elements of
               Inl e \<Rightarrow> Inl e
             | Inr prices0 \<Rightarrow>
                (case collect (\<lambda>p. text_of (find_first p ''a'' (Some ''seller-name'')))
                              (find_all l ''div'' (Some ''seller-info'')) of
                   Inl e \<Rightarrow> Inl e
                 | Inr property_name_elements \<Rightarrow>
                     let prices = map (\<lambda>(pr, den). pr @ '' '' @ den)
                                      (zip prices0 price_denominations)
                     in Inr (map (\<lambda>(ow, pr, prop_name).
                                    \<lparr>owner = replace ow ''BUILDER0'' '''',
                                     price = Str (rupee @ pr),
                                     property_name = prop_name\<rparr>)
                                 (zip3 owners prices property_name_elements)))))"

definition makaan :: "node \<Rightarrow> exn + listing list" where
  "makaan soup =
     (case collect makaan_listing (find_all soup ''div'' (Some ''search-result-wrap'')) of
        Inl e \<Rightarrow> Inl e
      | Inr chunks \<Rightarrow> Inr (concat chunks))"

subsection \<open>commonfloor\<close>

text \<open>
  The body of the loop over the \<^verbatim>\<open>snb-content-list\<close> containers (lines 98 to
  115). Every \<^verbatim>\<open>find\<close> is dereferenced at once; \<^verbatim>\<open>price[0]\<close> needs one
  \<^verbatim>\<open>td\<close>. The \<^verbatim>\<open>print(price)\<close> under \<^verbatim>\<open>if icon_inr\<close> writes to the standard
  output only and is left out.
\<close>

fun deref :: "node option \<Rightarrow> exn + node" where
  "deref None = Inl AttributeError"
| "deref (Some nd) = Inr nd"

definition commonfloor_listing :: "node \<Rightarrow> exn + listing" where
  "commonfloor_listing l =
     (case text_of (find_first l ''h3'' (Some ''proSnbp'')) of
        Inl e \<Rightarrow> Inl e
      | Inr owner_text \<Rightarrow>
         (case deref (find_first l ''tbody'' None) of
            Inl e \<Rightarrow> Inl e
          | Inr tbody \<Rightarrow>
             (case find_all tbody ''td'' None of
                [] \<Rightarrow> Inl IndexError
              | td0 # tds \<Rightarrow>
                 (case deref (find_first l ''div'' (Some ''snb-projecttile-top'')) of
                    Inl e \<Rightarrow> Inl e
                  | Inr property_info \<Rightarrow>
                     (case deref (find_first property_info ''a'' None) of
                        Inl e \<Rightarrow> Inl e
                      | Inr property_anchor \<Rightarrow>
                         (case text_of (find_first property_anchor ''h2'' None) of
                            Inl e \<Rightarrow> Inl e
                          | Inr name_text \<Rightarrow>
                              Inr \<lparr>owner = strip owner_text,
                                   price = ResultSet (td0 # tds),
                                   property_name = strip name_text\<rparr>))))))"

definition commonfloor :: "node \<Rightarrow> exn + listing list" where
  "commonfloor soup =
     collect commonfloor_listing (find_all soup ''div'' (Some ''snb-content-list''))"

subsection \<open>The chain of branches\<close>

text \<open>
  Lines 89 to 199: \<^verbatim>\<open>property_data_list\<close> starts empty and the branch of the website
  fills it; a website that is none of the three leaves it empty.
\<close>

definition adapter :: "string \<Rightarrow> node \<Rightarrow> exn + listing list" where
  "adapter website soup =
     (if website = ''commonfloor'' then commonfloor soup
      else if website = ''magicbricks'' then magicbricks soup
      else if website = ''makaan'' then makaan soup
      else Inr [])"

section \<open>The instance, the cache and the world\<close>

text \<open>
  \<^verbatim>\<open>self.base_url\<close>, built in \<^verbatim>\<open>__init__\<close> from the city; a website outside
  the dictionary has no entry.
\<close>

definition base_url :: "string \<Rightarrow> string \<Rightarrow> string option" where
  "base_url city website =
     (if website = ''magicbricks''
        then Some (''https://www.magicbricks.com/ready-to-move-flats-in-'' @ city @ ''-pppfs'')
      else if website = ''makaan''
        then Some (''https://www.makaan.com/'' @ city @ ''-residential-property/buy-property-in-''
                   @ city @ ''-city'')
      else if website = ''commonfloor''
        then Some (''https://www.commonfloor.com/'' @ city @ ''-property/projects'')
      else None)"

definition cache_key :: "string \<Rightarrow> string \<Rightarrow> string" where
  "cache_key website city = website @ ''_'' @ city"

text \<open>
  The memory cache of \<^verbatim>\<open>aiocache\<close>: a key holds a value and the time at which the
  entry expires. \<^verbatim>\<open>set(key, value, ttl)\<close> supersedes the entry and arms a timer of the
  event loop that deletes it \<open>ttl\<close> time units after the call. The cache reads no clock:
  \<^verbatim>\<open>get\<close> answers with whatever is stored, so an entry is gone once the loop has run
  its timer. The time \<open>now\<close> of \<open>cache_get\<close> is therefore the time up to which the loop
  has run its timers when the lookup takes place; on a loop that is not late it is the
  time of the lookup. The cache serializes values with \<^verbatim>\<open>JsonSerializer\<close>: a list of
  dictionaries of strings comes back as it went in, and a value holding a tag is refused
  with a \<open>TypeError\<close>.
\<close>

type_synonym cache = "string \<Rightarrow> (listing list \<times> nat) option"

definition cache_get :: "cache \<Rightarrow> string \<Rightarrow> nat \<Rightarrow> listing list option" where
  "cache_get c k now =
     (case c k of
        None \<Rightarrow> None
      | Some (v, expires) \<Rightarrow> if now < expires then Some v else None)"

definition cache_set :: "cache \<Rightarrow> string \<Rightarrow> listing list \<Rightarrow> nat \<Rightarrow> nat \<Rightarrow> cache" where
  "cache_set c k v ttl now = c(k \<mapsto> (v, now + ttl))"

fun is_Str :: "price_value \<Rightarrow> bool" where
  "is_Str (Str s) = True"
| "is_Str (ResultSet ns) = False"

definition json_ok :: "listing list \<Rightarrow> bool" where
  "json_ok ds = list_all (\<lambda>d. is_Str (price d)) ds"

text \<open>The lines of the run log: \<^verbatim>\<open>logging.error\<close> and \<^verbatim>\<open>logging.info\<close>.\<close>

datatype log_entry =
    Error_scraping string exn
  | Data_saved string
  | Error_saving string exn

text \<open>
  The state that the methods read and write: the cache of the instance, the log, the URLs
  requested from the network (in the order of the requests) and the files written.
  A file is the table that \<^verbatim>\<open>to_csv\<close> wrote: its lines, each a list of cells.
\<close>

record state =
  cache :: cache
  log :: "log_entry list"
  requests :: "string list"
  files :: "string \<Rightarrow> string list list option"

text \<open>
  What the program does not decide: the answer of the network to a request for a URL
  issued at a time (the page, or the exception of \<^verbatim>\<open>fetch_url\<close>), the tree that the
  parser builds from a page, whether a path can be opened for writing, the text that
  \<^verbatim>\<open>to_csv\<close> prints for a cell that holds tags, and how late the event loop is: the
  time up to which it has run its timers when a call issued at a given time looks into
  the cache.
\<close>

record world =
  fetch_url :: "nat \<Rightarrow> string \<Rightarrow> exn + string"
  BeautifulSoup :: "string \<Rightarrow> node"
  open_w :: "string \<Rightarrow> exn option"
  str_tags :: "node list \<Rightarrow> string"
  timers_run :: "nat \<Rightarrow> nat"

section \<open>scrape_properties\<close>

text \<open>
  The \<^verbatim>\<open>try\<close> block, lines 85 to 204, in two parts: up to the request that
  \<^verbatim>\<open>fetch_url\<close> sends, and from its answer on. \<open>t\<close> is the time of the cache lookup
  (as the timers of the loop have it) and of the request, \<open>t'\<close> the time at which
  \<^verbatim>\<open>cache.set\<close> runs.
\<close>

definition after_request ::
  "world \<Rightarrow> string \<Rightarrow> string \<Rightarrow> nat \<Rightarrow> nat \<Rightarrow> string \<Rightarrow> state
     \<Rightarrow> (exn + listing list) \<times> state" where
  "after_request W city website t t' url s =
     (case fetch_url W t url of
        Inl e \<Rightarrow> (Inl e, s)
      | Inr html \<Rightarrow>
         (case adapter website (BeautifulSoup W html) of
            Inl e \<Rightarrow> (Inl e, s)
          | Inr property_data_list \<Rightarrow>
              if json_ok property_data_list
              then (Inr property_data_list,
                    s\<lparr>cache := cache_set (cache s) (cache_key website city)
                                        property_data_list 3600 t'\<rparr>)
              else (Inl TypeError, s)))"

definition try_block ::
  "world \<Rightarrow> string \<Rightarrow> string \<Rightarrow> nat \<Rightarrow> nat \<Rightarrow> state \<Rightarrow> (exn + listing list) \<times> state" where
  "try_block W city website t t' s =
     (case base_url city website of
        None \<Rightarrow> (Inl (KeyError website), s)
      | Some url \<Rightarrow>
          after_request W city website t t' url (s\<lparr>requests := requests s @ [url]\<rparr>))"

text \<open>The \<^verbatim>\<open>except\<close> clause, lines 206 to 208.\<close>

definition except_clause ::
  "string \<Rightarrow> (exn + listing list) \<times> state \<Rightarrow> (exn + listing list) \<times> state" where
  "except_clause website r =
     (case r of
        (Inl e, s) \<Rightarrow>
          if is_transport e
          then (Inr [], s\<lparr>log := log s @ [Error_scraping website e]\<rparr>)
          else (Inl e, s)
      | (Inr v, s) \<Rightarrow> (Inr v, s))"

text \<open>
  Lines 77 to 82 and the whole method: \<^verbatim>\<open>if cached_data\<close> is the truth value of the
  cached value, so \<^verbatim>\<open>None\<close> and the empty list both go on to the \<^verbatim>\<open>try\<close> block.
\<close>

definition scrape_properties ::
  "world \<Rightarrow> string \<Rightarrow> string \<Rightarrow> nat \<Rightarrow> nat \<Rightarrow> state \<Rightarrow> (exn + listing list) \<times> state" where
  "scrape_properties W city website t t' s =
     (case cache_get (cache s) (cache_key website city) t of
        None \<Rightarrow> except_clause website (try_block W city website t t' s)
      | Some cached_data \<Rightarrow>
          if cached_data \<noteq> [] then (Inr cached_data, s)
          else except_clause website (try_block W city website t t' s))"

section \<open>asyncio.gather\<close>

text \<open>
  A call of \<^verbatim>\<open>scrape_properties\<close> is a task of the event loop. Between two of its
  \<^verbatim>\<open>await\<close>s a task runs alone; the tasks of one \<^verbatim>\<open>gather\<close> interleave at the
  \<^verbatim>\<open>await\<close>s. A task that has not started is \<open>Pending\<close>; after a cache miss it has
  sent its request and is \<open>Awaiting\<close> the answer for the URL; then it is \<open>Finished\<close>
  with its return value or its exception. A task is a website with the times \<open>t\<close> and
  \<open>t'\<close> of its call.
\<close>

datatype phase = Pending | Awaiting string | Finished "exn + listing list"

type_synonym task = "string \<times> nat \<times> nat"

text \<open>Lines 85 and 86, up to the request.\<close>

definition send_request :: "string \<Rightarrow> string \<Rightarrow> state \<Rightarrow> phase \<times> state" where
  "send_request city website s =
     (case base_url city website of
        None \<Rightarrow> (Finished (Inl (KeyError website)), s)
      | Some url \<Rightarrow> (Awaiting url, s\<lparr>requests := requests s @ [url]\<rparr>))"

text \<open>Lines 77 to 86, up to the request.\<close>

definition begin_task :: "string \<Rightarrow> task \<Rightarrow> state \<Rightarrow> phase \<times> state" where
  "begin_task city tk s =
     (case tk of (website, t, t') \<Rightarrow>
        (case cache_get (cache s) (cache_key website city) t of
           None \<Rightarrow> send_request city website s
         | Some cached_data \<Rightarrow>
             if cached_data \<noteq> [] then (Finished (Inr cached_data), s)
             else send_request city website s))"

text \<open>Lines 86 to 208, from the answer on.\<close>

definition resume_task :: "world \<Rightarrow> string \<Rightarrow> task \<Rightarrow> string \<Rightarrow> state \<Rightarrow> phase \<times> state" where
  "resume_task W city tk url s =
     (case tk of (website, t, t') \<Rightarrow>
        (case except_clause website (after_request W city website t t' url s) of
           (r, s') \<Rightarrow> (Finished r, s')))"

fun step :: "world \<Rightarrow> string \<Rightarrow> task \<Rightarrow> phase \<Rightarrow> state \<Rightarrow> phase \<times> state" where
  "step W city tk Pending s = begin_task city tk s"
| "step W city tk (Awaiting url) s = resume_task W city tk url s"
| "step W city tk (Finished r) s = (Finished r, s)"

fun raised :: "phase \<Rightarrow> exn option" where
  "raised (Finished (Inl e)) = Some e"
| "raised _ = None"

fun returned :: "phase \<Rightarrow> listing list option" where
  "returned (Finished (Inr v)) = Some v"
| "returned _ = None"

text \<open>
  A schedule names, step after step, the task that runs next. \<^verbatim>\<open>gather\<close> without
  \<^verbatim>\<open>return_exceptions\<close> raises the first exception that a task raises, at once.
\<close>

fun run_schedule ::
  "world \<Rightarrow> string \<Rightarrow> task list \<Rightarrow> nat list \<Rightarrow> phase list \<Rightarrow> state
     \<Rightarrow> exn option \<times> phase list \<times> state" where
  "run_schedule W city tasks [] ps s = (None, ps, s)"
| "run_schedule W city tasks (i # sched) ps s =
     (if i < length ps then
        (case step W city (tasks ! i) (ps ! i) s of
           (p, s') \<Rightarrow>
             (case raised p of
                Some e \<Rightarrow> (Some e, ps[i := p], s')
              | None \<Rightarrow> run_schedule W city tasks sched (ps[i := p]) s'))
      else run_schedule W city tasks sched ps s)"

text \<open>
  The value of \<^verbatim>\<open>await asyncio.gather(*tasks)\<close> under a schedule: the exception, or
  the return values in the order of the tasks, whatever the order in which they finished.
  A schedule that ends before every task has finished gives no value.
\<close>

definition gather ::
  "world \<Rightarrow> string \<Rightarrow> task list \<Rightarrow> nat list \<Rightarrow> state
     \<Rightarrow> ((exn + listing list list) \<times> state) option" where
  "gather W city tasks sched s =
     (case run_schedule W city tasks sched (replicate (length tasks) Pending) s of
        (Some e, ps, s') \<Rightarrow> Some (Inl e, s')
      | (None, ps, s') \<Rightarrow>
          if list_all (\<lambda>p. returned p \<noteq> None) ps
          then Some (Inr (map (\<lambda>p. the (returned p)) ps), s')
          else None)"

text \<open>A schedule that lets each of \<open>n\<close> tasks take both of its steps.\<close>

definition complete :: "nat list \<Rightarrow> nat \<Rightarrow> bool" where
  "complete sched n = list_all (\<lambda>i. 2 \<le> count_list sched i) [0..<n]"

section \<open>save_to_csv\<close>

text \<open>
  \<^verbatim>\<open>pd.DataFrame(data)\<close> takes its columns from the keys of the dictionaries, in the
  order in which they first occur; without a dictionary there is no column.
  \<^verbatim>\<open>to_csv(index=False)\<close> prints the line of the column names and one line for each
  dictionary. The table is kept as its lines of cells; the bytes are those of the strings,
  UTF-8.
\<close>

definition columns :: "listing list \<Rightarrow> string list" where
  "columns data = (if data = [] then [] else [''owner'', ''price'', ''property_name''])"

fun cell :: "world \<Rightarrow> price_value \<Rightarrow> string" where
  "cell W (Str s) = s"
| "cell W (ResultSet ns) = str_tags W ns"

definition to_csv :: "world \<Rightarrow> listing list \<Rightarrow> string list list" where
  "to_csv W data =
     columns data # map (\<lambda>d. [owner d, cell W (price d), property_name d]) data"

text \<open>Lines 243 to 249: every exception of the write is caught and logged.\<close>

definition save_to_csv :: "world \<Rightarrow> listing list \<Rightarrow> string \<Rightarrow> state \<Rightarrow> state" where
  "save_to_csv W data filename s =
     (case open_w W filename of
        Some e \<Rightarrow> s\<lparr>log := log s @ [Error_saving filename e]\<rparr>
      | None \<Rightarrow> s\<lparr>files := (files s)(filename \<mapsto> to_csv W data),
                   log := log s @ [Data_saved filename]\<rparr>)"

section \<open>scrape_properties_parallel\<close>

text \<open>\<^verbatim>\<open>os.path.join\<close> of two components, on POSIX.\<close>

definition os_path_join :: "string \<Rightarrow> string \<Rightarrow> string" where
  "os_path_join a b =
     (if b \<noteq> [] \<and> hd b = CHR ''/'' then b
      else if a = [] \<or> last a = CHR ''/'' then a @ b
      else a @ ''/'' @ b)"

record self =
  websites :: "string list"
  city :: string
  output_dir :: string

text \<open>Lines 214 to 217.\<close>

definition websites_to_scrape :: "self \<Rightarrow> string list" where
  "websites_to_scrape slf =
     (if ''all'' \<in> set (websites slf) then [''magicbricks'', ''makaan'', ''commonfloor'']
      else websites slf)"

text \<open>
  Lines 219 to 221: one task for each website, in the order of the list, and the
  flattening of what \<^verbatim>\<open>gather\<close> returns. \<open>clock\<close> gives the times of the call for a
  website.
\<close>

definition all_property_data ::
  "world \<Rightarrow> self \<Rightarrow> (string \<Rightarrow> nat \<times> nat) \<Rightarrow> nat list \<Rightarrow> state
     \<Rightarrow> ((exn + listing list) \<times> state) option" where
  "all_property_data W slf clock sched s =
     (let tasks = map (\<lambda>website. (website, clock website)) (websites_to_scrape slf) in
      case gather W (city slf) tasks sched s of
        None \<Rightarrow> None
      | Some (Inl e, s1) \<Rightarrow> Some (Inl e, s1)
      | Some (Inr property_data, s1) \<Rightarrow> Some (Inr (concat property_data), s1))"

text \<open>
  The whole method. \<open>today\<close> is the date as \<^verbatim>\<open>%d-%b-%Y\<close> prints it. An exception of
  a task leaves the method before the file name is built; \<^verbatim>\<open>save_to_csv\<close> raises
  nothing, so the handler of lines 231 to 233 never runs.
\<close>

definition scrape_properties_parallel ::
  "world \<Rightarrow> self \<Rightarrow> string \<Rightarrow> (string \<Rightarrow> nat \<times> nat) \<Rightarrow> nat list \<Rightarrow> state
     \<Rightarrow> ((exn + unit) \<times> state) option" where
  "scrape_properties_parallel W slf today clock sched s =
     (case all_property_data W slf clock sched s of
        None \<Rightarrow> None
      | Some (Inl e, s1) \<Rightarrow> Some (Inl e, s1)
      | Some (Inr data, s1) \<Rightarrow>
          let website_names = join ''-'' (websites_to_scrape slf);
              filename = city slf @ ''-'' @ website_names @ ''-'' @ today @ ''.csv'';
              file_path = os_path_join (output_dir slf) filename;
              s2 = save_to_csv W data file_path s1
          in Some (Inr (), s2\<lparr>log := log s2 @ [Data_saved file_path]\<rparr>))"

section \<open>Vocabulary of the properties\<close>

text \<open>
  The test of lines 80 and 81 as a predicate: the cache answers the key at time \<open>t\<close>
  with a value that Python takes for true.
\<close>

definition cache_hit :: "state \<Rightarrow> string \<Rightarrow> string \<Rightarrow> nat \<Rightarrow> bool" where
  "cache_hit s website cty t =
     (case cache_get (cache s) (cache_key website cty) t of
        None \<Rightarrow> False
      | Some d \<Rightarrow> d \<noteq> [])"

text \<open>
  The deletion that the timers of the loop have done by the time \<open>fired\<close>, and the lookup
  of the memory cache, which reads no clock.
\<close>

definition expire :: "nat \<Rightarrow> cache \<Rightarrow> cache" where
  "expire fired c =
     (\<lambda>k. case c k of
            None \<Rightarrow> None
          | Some (v, expires) \<Rightarrow> if fired < expires then Some (v, expires) else None)"

definition memory_get :: "cache \<Rightarrow> string \<Rightarrow> listing list option" where
  "memory_get c k = map_option fst (c k)"

text \<open>
  A call of \<^verbatim>\<open>scrape_properties\<close> issued at the time \<open>issued\<close>: its lookup sees the
  cache as the timers that the loop has run by then have left it.
\<close>

definition resolve ::
  "world \<Rightarrow> string \<Rightarrow> string \<Rightarrow> nat \<Rightarrow> nat \<Rightarrow> state \<Rightarrow> (exn + listing list) \<times> state" where
  "resolve W cty website issued t' s =
     scrape_properties W cty website (timers_run W issued) t' s"

text \<open>The return value of a call, an exception counting for no record.\<close>

fun records :: "exn + listing list \<Rightarrow> listing list" where
  "records (Inl e) = []"
| "records (Inr v) = v"

fun raises :: "exn + 'a \<Rightarrow> bool" where
  "raises (Inl e) = True"
| "raises (Inr v) = False"

text \<open>What a call of \<^verbatim>\<open>scrape_properties\<close> for a task returns when it runs alone.\<close>

definition alone :: "world \<Rightarrow> string \<Rightarrow> state \<Rightarrow> task \<Rightarrow> exn + listing list" where
  "alone W cty s tk = (case tk of (website, t, t') \<Rightarrow> fst (scrape_properties W cty website t t' s))"

text \<open>The path of the file that \<^verbatim>\<open>scrape_properties_parallel\<close> writes (lines 224 to 226).\<close>

definition output_path :: "self \<Rightarrow> string \<Rightarrow> string" where
  "output_path slf today =
     os_path_join (output_dir slf)
       (city slf @ ''-'' @ join ''-'' (websites_to_scrape slf) @ ''-'' @ today @ ''.csv'')"

text \<open>
  The listing containers that a branch of \<^verbatim>\<open>scrape_properties\<close> walks through, what
  the body of its loop adds for one container, and a container in which no node answers
  the selector of the owner, of the price or of the title.
\<close>

definition containers :: "string \<Rightarrow> node \<Rightarrow> node list" where
  "containers website soup =
     (if website = ''magicbricks'' then find_all soup ''div'' (Some ''mb-srp__left'')
      else if website = ''makaan'' then find_all soup ''div'' (Some ''search-result-wrap'')
      else [])"

definition container_records :: "string \<Rightarrow> node \<Rightarrow> exn + listing list" where
  "container_records website l =
     (if website = ''magicbricks'' then magicbricks_listing l
      else if website = ''makaan'' then makaan_listing l
      else Inr [])"

definition lacks_field :: "string \<Rightarrow> node \<Rightarrow> bool" where
  "lacks_field website l =
     (if website = ''magicbricks''
      then find_all l ''div'' (Some ''mb-srp__card__ads'') = []
           \<or> find_all l ''div'' (Some ''mb-srp__card__price--amount'') = []
           \<or> find_all l ''h2'' (Some ''mb-srp__card--title'') = []
      else if website = ''makaan''
      then find_all l ''div'' (Some ''seller-info'') = []
           \<or> find_all l ''td'' (Some ''price'') = []
      else False)"

text \<open>
  The nodes that the selectors of the owner, of the price and of the title find in a
  container, in document order. On makaan the owner and the title come from the same
  \<^verbatim>\<open>seller-info\<close> blocks.
\<close>

definition owner_nodes :: "string \<Rightarrow> node \<Rightarrow> node list" where
  "owner_nodes website l =
     (if website = ''magicbricks'' then find_all l ''div'' (Some ''mb-srp__card__ads'')
      else if website = ''makaan'' then find_all l ''div'' (Some ''seller-info'')
      else [])"

definition price_nodes :: "string \<Rightarrow> node \<Rightarrow> node list" where
  "price_nodes website l =
     (if website = ''magicbricks'' then find_all l ''div'' (Some ''mb-srp__card__price--amount'')
      else if website = ''makaan'' then find_all l ''td'' (Some ''price'')
      else [])"

definition title_nodes :: "string \<Rightarrow> node \<Rightarrow> node list" where
  "title_nodes website l =
     (if website = ''magicbricks'' then find_all l ''h2'' (Some ''mb-srp__card--title'')
      else if website = ''makaan'' then find_all l ''div'' (Some ''seller-info'')
      else [])"

text \<open>The text of the first element of a name and class below a node, empty without one.\<close>

definition inner_text :: "node \<Rightarrow> string \<Rightarrow> string \<Rightarrow> string" where
  "inner_text nd name c =
     (case find_first nd name (Some c) of None \<Rightarrow> [] | Some x \<Rightarrow> get_text x)"

text \<open>
  The record that a branch forms from an owner node, a price node and a title node, and
  the records of a container when the nodes are paired by position: the first owner node
  with the first price node and the first title node, and so on as far as the shortest of
  the three lists goes.
\<close>

definition positional_record :: "string \<Rightarrow> node \<times> node \<times> node \<Rightarrow> listing" where
  "positional_record website = (\<lambda>(ow, pr, ti).
     if website = ''magicbricks''
     then \<lparr>owner = lstrip (inner_text ow ''div'' ''mb-srp__card__ads--name'') ''Owner: '',
           price = Str (get_text pr),
           property_name = get_text ti\<rparr>
     else \<lparr>owner = replace (get_text ow) ''BUILDER0'' [],
           price = Str (rupee @ inner_text pr ''span'' ''val'' @ '' ''
                        @ inner_text pr ''span'' ''unit''),
           property_name = inner_text ti ''a'' ''seller-name''\<rparr>)"

definition positional_records :: "string \<Rightarrow> node \<Rightarrow> listing list" where
  "positional_records website l =
     map (positional_record website)
         (zip (owner_nodes website l) (zip (price_nodes website l) (title_nodes website l)))"

text \<open>
  A container in which some node that a selector finds lacks the element that the code
  takes the text of: the name of a magicbricks owner block, the \<^verbatim>\<open>val\<close> or
  \<^verbatim>\<open>unit\<close> span of a makaan price cell, the \<^verbatim>\<open>seller-name\<close> link of a makaan
  seller block.
\<close>

definition malformed :: "string \<Rightarrow> node \<Rightarrow> bool" where
  "malformed website l =
     (if website = ''magicbricks''
      then list_ex (\<lambda>ow. find_first ow ''div'' (Some ''mb-srp__card__ads--name'') = None)
                   (owner_nodes website l)
      else if website = ''makaan''
      then list_ex (\<lambda>p. find_first p ''span'' (Some ''val'') = None
                         \<or> find_first p ''span'' (Some ''unit'') = None)
                   (price_nodes website l)
           \<or> list_ex (\<lambda>n. find_first n ''a'' (Some ''seller-name'') = None)
                      (title_nodes website l)
      else False)"

section \<open>Vocabulary of the proofs about gather\<close>

text \<open>
  The transport failure that the call for a task meets when it runs alone from the state
  \<open>s0\<close>, if it meets one.
\<close>

definition failure_of :: "world \<Rightarrow> string \<Rightarrow> state \<Rightarrow> task \<Rightarrow> exn option" where
  "failure_of W cty s0 tk =
     (case tk of (website, t, t') \<Rightarrow>
        (case fst (begin_task cty tk s0) of
           Awaiting url \<Rightarrow>
             (case fetch_url W t url of
                Inl e \<Rightarrow> if is_transport e then Some e else None
              | Inr html \<Rightarrow> None)
         | _ \<Rightarrow> None))"

text \<open>
  What links a task in the middle of a run to the call that runs alone from the initial
  state \<open>s0\<close>: a task that has not started still sees its own cache entry as it was; a
  task that waits has sent the request that the lone call sends; a task that has finished
  returned what the lone call returns, and its failure is in the log.
\<close>

definition good :: "world \<Rightarrow> string \<Rightarrow> state \<Rightarrow> task \<Rightarrow> phase \<Rightarrow> state \<Rightarrow> bool" where
  "good W cty s0 tk p s =
     (case p of
        Pending \<Rightarrow> cache s (cache_key (fst tk) cty) = cache s0 (cache_key (fst tk) cty)
      | Awaiting url \<Rightarrow> fst (begin_task cty tk s0) = Awaiting url
      | Finished r \<Rightarrow>
          r = alone W cty s0 tk
          \<and> (\<forall>e. failure_of W cty s0 tk = Some e
                 \<longrightarrow> Error_scraping (fst tk) e \<in> set (log s)))"

definition inv :: "world \<Rightarrow> string \<Rightarrow> state \<Rightarrow> task list \<Rightarrow> phase list \<Rightarrow> state \<Rightarrow> bool" where
  "inv W cty s0 tasks ps s =
     (length ps = length tasks
      \<and> (\<forall>i < length tasks. good W cty s0 (tasks ! i) (ps ! i) s))"

text \<open>The number of steps that a task has behind it.\<close>

fun rank :: "phase \<Rightarrow> nat" where
  "rank Pending = 0"
| "rank (Awaiting url) = 1"
| "rank (Finished r) = 2"

section \<open>Pages and worlds for the examples\<close>

definition doc :: "node list \<Rightarrow> node" where
  "doc ks = Tag ''[document]'' [] ks"

text \<open>A magicbricks container with one card.\<close>

definition magicbricks_card :: "string \<Rightarrow> string \<Rightarrow> string \<Rightarrow> node" where
  "magicbricks_card ow pr title =
     Tag ''div'' [''mb-srp__left'']
       [Tag ''div'' [''mb-srp__card__ads'']
          [Tag ''div'' [''mb-srp__card__ads--name''] [Text ow]],
        Tag ''div'' [''mb-srp__card__price--amount''] [Text pr],
        Tag ''h2'' [''mb-srp__card--title''] [Text title]]"

text \<open>A makaan container with the children of its seller block and of its price cell.\<close>

definition makaan_card :: "node list \<Rightarrow> node list \<Rightarrow> node" where
  "makaan_card seller_info price_cell =
     Tag ''div'' [''search-result-wrap'']
       [Tag ''div'' [''seller-info''] seller_info,
        Tag ''td'' [''price''] price_cell]"

definition seller :: "string \<Rightarrow> node list" where
  "seller name = [Text ''BUILDER0'', Tag ''a'' [''seller-name''] [Text name]]"

definition amount :: "string \<Rightarrow> string \<Rightarrow> node list" where
  "amount v den = [Tag ''span'' [''val''] [Text v], Tag ''span'' [''unit''] [Text den]]"

text \<open>
  A network that answers every request with the same page, and one that times out; the
  event loop of both is on time.
\<close>

definition serving :: "node \<Rightarrow> world" where
  "serving page =
     \<lparr>fetch_url = (\<lambda>t url. Inr ''<html>''), BeautifulSoup = (\<lambda>html. page),
      open_w = (\<lambda>path. None), str_tags = (\<lambda>ns. []),
      timers_run = (\<lambda>t. t)\<rparr>"

definition offline :: world where
  "offline =
     \<lparr>fetch_url = (\<lambda>t url. Inl TimeoutError), BeautifulSoup = (\<lambda>html. doc []),
      open_w = (\<lambda>path. None), str_tags = (\<lambda>ns. []),
      timers_run = (\<lambda>t. t)\<rparr>"

text \<open>A network on which magicbricks times out and every other site answers with the page.\<close>

definition magicbricks_down :: "node \<Rightarrow> world" where
  "magicbricks_down page =
     \<lparr>fetch_url = (\<lambda>t url. if take 27 url = ''https://www.magicbricks.com''
                            then Inl TimeoutError else Inr ''<html>''),
      BeautifulSoup = (\<lambda>html. page),
      open_w = (\<lambda>path. None), str_tags = (\<lambda>ns. []),
      timers_run = (\<lambda>t. t)\<rparr>"

text \<open>The same world on a loop whose timers are \<open>d\<close> time units late.\<close>

definition late :: "nat \<Rightarrow> world \<Rightarrow> world" where
  "late d W = W\<lparr>timers_run := (\<lambda>t. t - d)\<rparr>"

text \<open>A commonfloor container with one well-formed listing.\<close>

definition commonfloor_card :: "string \<Rightarrow> string \<Rightarrow> string \<Rightarrow> node" where
  "commonfloor_card ow pr title =
     Tag ''div'' [''snb-content-list'']
       [Tag ''div'' [''snb-projecttile-top'']
          [Tag ''a'' [] [Tag ''h2'' [] [Text title]]],
        Tag ''h3'' [''proSnbp''] [Text ow],
        Tag ''table'' [] [Tag ''tbody'' [] [Tag ''tr'' [] [Tag ''td'' [] [Text pr]]]]]"

text \<open>The state of a fresh instance, and one whose cache holds an entry.\<close>

definition init :: state where
  "init = \<lparr>cache = (\<lambda>k. None), log = [], requests = [], files = (\<lambda>p. None)\<rparr>"

definition with_entry :: "string \<Rightarrow> listing list \<Rightarrow> nat \<Rightarrow> state" where
  "with_entry k v expires = init\<lparr>cache := (\<lambda>k'. if k' = k then Some (v, expires) else None)\<rparr>"

text \<open>The makaan URL for the city \<^verbatim>\<open>pune\<close>, a page with one listing, and its record.\<close>

definition makaan_pune :: string where
  "makaan_pune = ''https://www.makaan.com/pune-residential-property/buy-property-in-pune-city''"

definition acme_page :: node where
  "acme_page = doc [makaan_card (seller ''Acme'') (amount ''45'' ''L'')]"

definition acme :: listing where
  "acme = \<lparr>owner = ''Acme'', price = Str (rupee @ ''45 L''), property_name = ''Acme''\<rparr>"

text \<open>A page with a magicbricks container and a makaan container, and the magicbricks record.\<close>

definition both_page :: node where
  "both_page = doc [magicbricks_card ''Asha'' ''50 Lac'' ''2 BHK Flat'',
                    makaan_card (seller ''Acme'') (amount ''45'' ''L'')]"

definition asha :: listing where
  "asha = \<lparr>owner = ''Asha'', price = Str ''50 Lac'', property_name = ''2 BHK Flat''\<rparr>"

text \<open>A magicbricks container without a price, and a page that holds it after a full one.\<close>

definition priceless :: node where
  "priceless =
     Tag ''div'' [''mb-srp__left'']
       [Tag ''div'' [''mb-srp__card__ads'']
          [Tag ''div'' [''mb-srp__card__ads--name''] [Text ''Ravi'']],
        Tag ''h2'' [''mb-srp__card--title''] [Text ''3 BHK Villa'']]"

definition asha_page :: node where
  "asha_page = doc [magicbricks_card ''Asha'' ''50 Lac'' ''2 BHK Flat'', priceless]"

text \<open>
  A magicbricks container with two listings of which the first has no price, a makaan page
  whose second seller block has no \<^verbatim>\<open>seller-name\<close> link, and a magicbricks page whose
  only title is empty.
\<close>

definition shifted :: node where
  "shifted =
     Tag ''div'' [''mb-srp__left'']
       [Tag ''div'' [''mb-srp__card__ads'']
          [Tag ''div'' [''mb-srp__card__ads--name''] [Text ''Ravi'']],
        Tag ''h2'' [''mb-srp__card--title''] [Text ''3 BHK Villa''],
        Tag ''div'' [''mb-srp__card__ads'']
          [Tag ''div'' [''mb-srp__card__ads--name''] [Text ''Asha'']],
        Tag ''div'' [''mb-srp__card__price--amount''] [Text ''50 Lac''],
        Tag ''h2'' [''mb-srp__card--title''] [Text ''2 BHK Flat'']]"

definition nameless_page :: node where
  "nameless_page = doc [makaan_card (seller ''Acme'') (amount ''45'' ''L''),
                        makaan_card [Text ''Bob''] (amount ''60'' ''L'')]"

definition untitled_page :: node where
  "untitled_page = doc [magicbricks_card ''Asha'' ''50 Lac'' []]"

text \<open>A makaan page whose price cell has no \<^verbatim>\<open>unit\<close> span.\<close>

definition no_unit_page :: node where
  "no_unit_page = doc [makaan_card (seller ''Acme'') [Tag ''span'' [''val''] [Text ''45'']]]"

text \<open>Two instances, and a clock that gives every call the times 0 and 1.\<close>

definition two_sites :: self where
  "two_sites = \<lparr>websites = [''magicbricks'', ''makaan''], city = ''pune'', output_dir = ''data''\<rparr>"

definition only_makaan :: self where
  "only_makaan = \<lparr>websites = [''makaan''], city = ''pune'', output_dir = ''data''\<rparr>"

definition at_once :: "string \<Rightarrow> nat \<times> nat" where
  "at_once website = (0, 1)"

section \<open>Facts about the model\<close>

declare replace.simps [simp del]

declare drop_leading.simps [simp del]

lemmas page_defs = doc_def magicbricks_card_def makaan_card_def seller_def amount_def
  commonfloor_card_def
lemmas dom_defs = find_all_def find_first_def
lemmas adapter_defs = adapter_def magicbricks_def magicbricks_listing_def makaan_def
  makaan_listing_def commonfloor_def commonfloor_listing_def zip3_def lstrip_def rupee_def Let_def
lemmas sp_defs = scrape_properties_def try_block_def after_request_def except_clause_def
  cache_get_def cache_set_def cache_key_def base_url_def json_ok_def
lemmas field_defs = containers_def owner_nodes_def price_nodes_def title_nodes_def
  malformed_def lacks_field_def positional_records_def positional_record_def inner_text_def
lemmas world_defs = serving_def offline_def magicbricks_down_def init_def with_entry_def
  late_def resolve_def
lemmas gather_defs = all_property_data_def scrape_properties_parallel_def gather_def
  websites_to_scrape_def begin_task_def send_request_def resume_task_def save_to_csv_def
  to_csv_def columns_def os_path_join_def output_path_def

lemma collect_Inl: "collect f xs = Inl e \<Longrightarrow> \<exists>x \<in> set xs. f x = Inl e"
  by (induction xs) (auto split: sum.splits)

lemma collect_Inr: "collect f xs = Inr ys \<Longrightarrow> map f xs = map Inr ys"
  by (induction xs arbitrary: ys) (auto split: sum.splits)

lemma text_of_Inl: "text_of x = Inl e \<Longrightarrow> e = AttributeError"
  by (cases x) auto

lemma deref_Inl: "deref x = Inl e \<Longrightarrow> e = AttributeError"
  by (cases x) auto

lemma magicbricks_listing_Inl: "magicbricks_listing l = Inl e \<Longrightarrow> e = AttributeError"
  by (auto simp: magicbricks_listing_def Let_def split: sum.splits dest!: collect_Inl text_of_Inl)

lemma makaan_listing_Inl: "makaan_listing l = Inl e \<Longrightarrow> e = AttributeError"
  by (auto simp: makaan_listing_def Let_def split: sum.splits dest!: collect_Inl text_of_Inl)

lemma commonfloor_listing_Inl:
  "commonfloor_listing l = Inl e \<Longrightarrow> e = AttributeError \<or> e = IndexError"
  by (auto simp: commonfloor_listing_def split: sum.splits list.splits
           dest!: text_of_Inl deref_Inl)

lemma adapter_Inl: "adapter website soup = Inl e \<Longrightarrow> e = AttributeError \<or> e = IndexError"
  by (auto simp: adapter_def magicbricks_def makaan_def commonfloor_def
           split: if_splits sum.splits
           dest!: collect_Inl magicbricks_listing_Inl makaan_listing_Inl commonfloor_listing_Inl)

lemma hit_returns:
  "cache_get (cache s) (cache_key website cty) t = Some d \<Longrightarrow> d \<noteq> [] \<Longrightarrow>
   scrape_properties W cty website t t' s = (Inr d, s)"
  by (simp add: scrape_properties_def)

lemma miss_runs_try:
  "\<not> cache_hit s website cty t \<Longrightarrow>
   scrape_properties W cty website t t' s
     = except_clause website (try_block W cty website t t' s)"
  by (auto simp: scrape_properties_def cache_hit_def split: option.splits)

lemma miss_requests:
  "\<not> cache_hit s website cty t \<Longrightarrow> base_url cty website = Some url \<Longrightarrow>
   requests (snd (scrape_properties W cty website t t' s)) = requests s @ [url]"
  by (auto simp: miss_runs_try try_block_def after_request_def except_clause_def Let_def
           split: sum.splits)

lemma miss_later:
  "\<not> cache_hit s website cty t \<Longrightarrow> t \<le> t2 \<Longrightarrow> cache s1 = cache s \<Longrightarrow>
   \<not> cache_hit s1 website cty t2"
  by (auto simp: cache_hit_def cache_get_def split: option.splits if_splits)

lemma fresh_success:
  assumes "\<not> cache_hit s website cty t"
    and "base_url cty website = Some url"
    and "fetch_url W t url = Inr html"
    and "adapter website (BeautifulSoup W html) = Inr recs"
    and "json_ok recs"
  shows "scrape_properties W cty website t t' s
           = (Inr recs, s\<lparr>requests := requests s @ [url],
                          cache := (cache s)(cache_key website cty \<mapsto> (recs, t' + 3600))\<rparr>)"
  using assms
  by (simp add: miss_runs_try try_block_def after_request_def except_clause_def cache_set_def)

lemma fresh_nonempty:
  assumes "\<not> cache_hit s website cty t"
    and "scrape_properties W cty website t t' s = (Inr recs, s1)"
    and "recs \<noteq> []"
  shows "\<exists>url. s1 = s\<lparr>requests := requests s @ [url],
                       cache := (cache s)(cache_key website cty \<mapsto> (recs, t' + 3600))\<rparr>"
  using assms
  by (auto simp: miss_runs_try try_block_def after_request_def except_clause_def cache_set_def
           split: option.splits sum.splits if_splits)

lemma makaan_acme: "makaan acme_page = Inr [acme]"
  by (simp add: acme_page_def acme_def page_defs dom_defs adapter_defs replace.simps)

lemma scrape_acme:
  "scrape_properties (serving acme_page) ''pune'' ''makaan'' 0 1 init
     = (Inr [acme], init\<lparr>requests := requests init @ [makaan_pune],
            cache := (cache init)(cache_key ''makaan'' ''pune'' \<mapsto> ([acme], 1 + 3600))\<rparr>)"
proof (rule fresh_success)
  show "\<not> cache_hit init ''makaan'' ''pune'' 0"
    by (simp add: cache_hit_def cache_get_def init_def)
  show "base_url ''pune'' ''makaan'' = Some makaan_pune"
    by (simp add: base_url_def makaan_pune_def)
  show "fetch_url (serving acme_page) 0 makaan_pune = Inr ''<html>''"
    by (simp add: serving_def)
  show "adapter ''makaan'' (BeautifulSoup (serving acme_page) ''<html>'') = Inr [acme]"
    by (simp add: serving_def adapter_def makaan_acme)
  show "json_ok [acme]" by (simp add: json_ok_def acme_def)
qed

section \<open>Tasks under a schedule\<close>
lemma key_inj: "cache_key w cty = cache_key w' cty \<Longrightarrow> w = w'"
  by (simp add: cache_key_def)

lemma outcome_state_free:
  "fst (except_clause w (after_request W cty w t t' url s))
     = fst (except_clause w (after_request W cty w t t' url s'))"
  by (simp add: except_clause_def after_request_def split: sum.splits)

lemma begin_alone:
  "fst (begin_task cty tk s0) = Finished r \<Longrightarrow> alone W cty s0 tk = r"
  by (cases tk)
     (auto simp: begin_task_def send_request_def alone_def scrape_properties_def try_block_def
                 except_clause_def
           split: option.splits if_splits)

lemma resume_alone:
  "fst (begin_task cty tk s0) = Awaiting url \<Longrightarrow>
   fst (resume_task W cty tk url s) = Finished (alone W cty s0 tk)"
proof (cases tk)
  case (fields w t t')
  assume a: "fst (begin_task cty tk s0) = Awaiting url"
  have "alone W cty s0 tk
          = fst (except_clause w (after_request W cty w t t' url (s0\<lparr>requests := requests s0 @ [url]\<rparr>)))"
    using a fields
    by (auto simp: begin_task_def send_request_def alone_def scrape_properties_def try_block_def
             split: option.splits if_splits)
  also have "\<dots> = fst (except_clause w (after_request W cty w t t' url s))"
    by (rule outcome_state_free)
  finally show ?thesis
    using fields by (simp add: resume_task_def split: prod.splits)
qed

lemma begin_local:
  "cache s (cache_key (fst tk) cty) = cache s0 (cache_key (fst tk) cty) \<Longrightarrow>
   fst (begin_task cty tk s) = fst (begin_task cty tk s0)"
  by (cases tk)
     (auto simp: begin_task_def send_request_def cache_get_def split: option.splits)

lemma begin_frame:
  "begin_task cty tk s = (p, s') \<Longrightarrow>
   cache s' = cache s \<and> log s' = log s \<and> files s' = files s"
  by (cases tk)
     (auto simp: begin_task_def send_request_def split: option.splits if_splits)

lemma begin_rank: "begin_task cty tk s = (p, s') \<Longrightarrow> 0 < rank p"
  by (cases tk)
     (auto simp: begin_task_def send_request_def split: option.splits if_splits)

lemma resume_frame:
  "resume_task W cty tk url s = (p, s') \<Longrightarrow>
   (\<forall>k. k \<noteq> cache_key (fst tk) cty \<longrightarrow> cache s' k = cache s k)
   \<and> set (log s) \<subseteq> set (log s') \<and> files s' = files s"
  by (cases tk)
     (auto simp: resume_task_def except_clause_def after_request_def cache_set_def
           split: sum.splits if_splits prod.splits)

lemma resume_log:
  "resume_task W cty tk url s = (p, s') \<Longrightarrow> fetch_url W (fst (snd tk)) url = Inl e \<Longrightarrow>
   is_transport e \<Longrightarrow> Error_scraping (fst tk) e \<in> set (log s')"
  by (cases tk)
     (auto simp: resume_task_def except_clause_def after_request_def
           split: sum.splits if_splits prod.splits)

lemma resume_finished: "resume_task W cty tk url s = (p, s') \<Longrightarrow> rank p = 2"
  by (cases tk) (auto simp: resume_task_def split: prod.splits)

lemma step_frame:
  "step W cty tk p s = (q, s1) \<Longrightarrow>
   (\<forall>k. k \<noteq> cache_key (fst tk) cty \<longrightarrow> cache s1 k = cache s k)
   \<and> set (log s) \<subseteq> set (log s1) \<and> files s1 = files s"
proof (cases p)
  case Pending
  assume "step W cty tk p s = (q, s1)"
  with Pending have "begin_task cty tk s = (q, s1)" by simp
  from begin_frame [OF this] show ?thesis by simp
next
  case (Awaiting url)
  assume "step W cty tk p s = (q, s1)"
  with Awaiting have "resume_task W cty tk url s = (q, s1)" by simp
  from resume_frame [OF this] show ?thesis .
next
  case (Finished r)
  assume "step W cty tk p s = (q, s1)"
  with Finished show ?thesis by simp
qed

lemma step_rank: "step W cty tk p s = (q, s1) \<Longrightarrow> min 2 (rank p + 1) \<le> rank q"
proof (cases p)
  case Pending
  assume "step W cty tk p s = (q, s1)"
  with Pending have "begin_task cty tk s = (q, s1)" by simp
  from begin_rank [OF this] Pending show ?thesis by simp
next
  case (Awaiting url)
  assume "step W cty tk p s = (q, s1)"
  with Awaiting have "resume_task W cty tk url s = (q, s1)" by simp
  from resume_finished [OF this] show ?thesis by simp
next
  case (Finished r)
  assume "step W cty tk p s = (q, s1)"
  with Finished show ?thesis by auto
qed

lemma step_self:
  assumes g: "good W cty s0 tk p s" and st: "step W cty tk p s = (q, s1)"
  shows "good W cty s0 tk q s1"
proof (cases p)
  case Pending
  with st have b: "begin_task cty tk s = (q, s1)" by simp
  from g Pending have "cache s (cache_key (fst tk) cty) = cache s0 (cache_key (fst tk) cty)"
    by (simp add: good_def)
  from begin_local [OF this] b have q: "fst (begin_task cty tk s0) = q" by simp
  show ?thesis
  proof (cases q)
    case Pending
    with begin_rank [OF b] show ?thesis by simp
  next
    case (Awaiting url)
    with q show ?thesis by (simp add: good_def)
  next
    case (Finished r)
    with q have "fst (begin_task cty tk s0) = Finished r" by simp
    from begin_alone [OF this, of W] this Finished show ?thesis
      by (cases tk) (simp add: good_def failure_of_def)
  qed
next
  case (Awaiting url)
  with st have r: "resume_task W cty tk url s = (q, s1)" by simp
  from g Awaiting have b: "fst (begin_task cty tk s0) = Awaiting url"
    by (simp add: good_def)
  from resume_alone [OF b, of W s] r have q: "q = Finished (alone W cty s0 tk)" by simp
  have "Error_scraping (fst tk) e \<in> set (log s1)" if "failure_of W cty s0 tk = Some e" for e
  proof -
    from that b have "fetch_url W (fst (snd tk)) url = Inl e \<and> is_transport e"
      by (cases tk) (auto simp: failure_of_def split: sum.splits if_splits)
    with resume_log [OF r] show ?thesis by blast
  qed
  with q show ?thesis by (simp add: good_def)
next
  case (Finished r)
  with g st show ?thesis by simp
qed

lemma good_Pending_frame:
  "good W cty s0 tk Pending s \<Longrightarrow>
   cache s1 (cache_key (fst tk) cty) = cache s (cache_key (fst tk) cty) \<Longrightarrow>
   good W cty s0 tk Pending s1"
  by (simp add: good_def)

lemma good_Finished_frame:
  "good W cty s0 tk (Finished r) s \<Longrightarrow> set (log s) \<subseteq> set (log s1) \<Longrightarrow>
   good W cty s0 tk (Finished r) s1"
  unfolding good_def phase.case by blast

lemma step_other:
  assumes g: "good W cty s0 tk' p' s" and st: "step W cty tk p s = (q, s1)"
    and ne: "fst tk \<noteq> fst tk'"
  shows "good W cty s0 tk' p' s1"
proof -
  from ne have k: "cache_key (fst tk') cty \<noteq> cache_key (fst tk) cty"
    by (simp add: cache_key_def)
  from step_frame [OF st] have
    fr: "\<forall>k. k \<noteq> cache_key (fst tk) cty \<longrightarrow> cache s1 k = cache s k"
    by (rule conjunct1)
  from step_frame [OF st] have l: "set (log s) \<subseteq> set (log s1)"
    by (rule conjunct1 [OF conjunct2])
  from fr have "cache_key (fst tk') cty \<noteq> cache_key (fst tk) cty
      \<longrightarrow> cache s1 (cache_key (fst tk') cty) = cache s (cache_key (fst tk') cty)"
    by (rule spec)
  from mp [OF this k]
  have c: "cache s1 (cache_key (fst tk') cty) = cache s (cache_key (fst tk') cty)" .
  show ?thesis
  proof (cases p')
    case Pending
    from g c show ?thesis unfolding Pending by (rule good_Pending_frame)
  next
    case (Awaiting url)
    with g show ?thesis by (simp add: good_def)
  next
    case (Finished r)
    from g l show ?thesis unfolding Finished by (rule good_Finished_frame)
  qed
qed

lemma inv_step:
  assumes d: "distinct (map fst tasks)" and i: "inv W cty s0 tasks ps s"
    and lt: "i < length ps" and st: "step W cty (tasks ! i) (ps ! i) s = (q, s1)"
  shows "inv W cty s0 tasks (ps[i := q]) s1"
  unfolding inv_def
proof (intro conjI allI impI)
  from i show "length (ps[i := q]) = length tasks" by (simp add: inv_def)
next
  fix j assume j: "j < length tasks"
  from i have len: "length ps = length tasks" by (simp add: inv_def)
  from i j have gj: "good W cty s0 (tasks ! j) (ps ! j) s" by (simp add: inv_def)
  show "good W cty s0 (tasks ! j) (ps[i := q] ! j) s1"
  proof (cases "j = i")
    case True
    with gj st lt show ?thesis by (simp add: step_self)
  next
    case False
    with d j lt len have "fst (tasks ! i) \<noteq> fst (tasks ! j)"
      by (metis distinct_conv_nth length_map nth_map)
    from step_other [OF gj st this] False show ?thesis by simp
  qed
qed

lemma run_inv:
  assumes "distinct (map fst tasks)"
  shows "inv W cty s0 tasks ps s \<Longrightarrow> run_schedule W cty tasks sched ps s = (r, ps', s') \<Longrightarrow>
         inv W cty s0 tasks ps' s' \<and> files s' = files s
         \<and> (\<forall>e. r = Some e \<longrightarrow> (\<exists>i < length tasks. ps' ! i = Finished (Inl e)))"
proof (induction sched arbitrary: ps s)
  case Nil
  then show ?case by simp
next
  case (Cons i sched)
  show ?case
  proof (cases "i < length ps")
    case False
    with Cons.prems(2) have "run_schedule W cty tasks sched ps s = (r, ps', s')" by simp
    from Cons.IH [OF Cons.prems(1) this] show ?thesis .
  next
    case True
    obtain q s1 where st: "step W cty (tasks ! i) (ps ! i) s = (q, s1)" by force
    from inv_step [OF assms Cons.prems(1) True st]
    have i1: "inv W cty s0 tasks (ps[i := q]) s1" .
    from step_frame [OF st] have f1: "files s1 = files s" by simp
    show ?thesis
    proof (cases "raised q")
      case None
      with Cons.prems(2) True st
      have "run_schedule W cty tasks sched (ps[i := q]) s1 = (r, ps', s')" by simp
      from Cons.IH [OF i1 this] f1 show ?thesis by simp
    next
      case (Some e)
      with Cons.prems(2) True st have r: "r = Some e" "ps' = ps[i := q]" "s' = s1" by simp_all
      from Some have "q = Finished (Inl e)" by (cases q rule: raised.cases) simp_all
      moreover from i1 True have "i < length tasks" by (simp add: inv_def)
      ultimately have "\<exists>i < length tasks. ps' ! i = Finished (Inl e)"
        using r True by auto
      with i1 f1 r show ?thesis by simp
    qed
  qed
qed

lemma run_rank:
  "run_schedule W cty tasks sched ps s = (None, ps', s') \<Longrightarrow>
   length ps' = length ps
   \<and> (\<forall>j < length ps. min 2 (rank (ps ! j) + count_list sched j) \<le> rank (ps' ! j))"
proof (induction sched arbitrary: ps s)
  case Nil
  then show ?case by simp
next
  case (Cons i sched)
  show ?case
  proof (cases "i < length ps")
    case False
    with Cons.prems have "run_schedule W cty tasks sched ps s = (None, ps', s')" by simp
    from Cons.IH [OF this] False show ?thesis by auto
  next
    case True
    obtain q s1 where st: "step W cty (tasks ! i) (ps ! i) s = (q, s1)" by force
    with Cons.prems True have nr: "raised q = None"
      by (auto split: option.splits)
    with Cons.prems True st
    have "run_schedule W cty tasks sched (ps[i := q]) s1 = (None, ps', s')" by simp
    from Cons.IH [OF this] have len: "length ps' = length ps"
      and ih: "\<forall>j < length ps. min 2 (rank (ps[i := q] ! j) + count_list sched j) \<le> rank (ps' ! j)"
      by simp_all
    have "min 2 (rank (ps ! j) + count_list (i # sched) j) \<le> rank (ps' ! j)"
      if j: "j < length ps" for j
    proof (cases "j = i")
      case True
      from step_rank [OF st] have a: "min 2 (rank (ps ! i) + 1) \<le> rank q" .
      from ih True j have "min 2 (rank (ps[i := q] ! i) + count_list sched i) \<le> rank (ps' ! i)"
        by blast
      with j True have b: "min 2 (rank q + count_list sched i) \<le> rank (ps' ! i)"
        by simp
      have c: "count_list (i # sched) i = count_list sched i + 1" by simp
      from a b have "min 2 (rank (ps ! i) + (count_list sched i + 1)) \<le> rank (ps' ! i)"
        by arith
      with c True show ?thesis by simp
    next
      case False
      from ih j have "min 2 (rank (ps[i := q] ! j) + count_list sched j) \<le> rank (ps' ! j)"
        by blast
      moreover from False have "ps[i := q] ! j = ps ! j" by simp
      moreover from False have "count_list (i # sched) j = count_list sched j" by simp
      ultimately show ?thesis by simp
    qed
    with len show ?thesis by simp
  qed
qed

lemma inv_init: "inv W cty s0 tasks (replicate (length tasks) Pending) s0"
  by (simp add: inv_def good_def)

lemma complete_iff: "complete sched n \<longleftrightarrow> (\<forall>i < n. 2 \<le> count_list sched i)"
  by (auto simp: complete_def list_all_iff)

lemma run_files:
  "run_schedule W cty tasks sched ps s = (r, ps', s') \<Longrightarrow> files s' = files s"
proof (induction sched arbitrary: ps s)
  case Nil
  then show ?case by simp
next
  case (Cons i sched)
  show ?case
  proof (cases "i < length ps")
    case False
    with Cons.prems have "run_schedule W cty tasks sched ps s = (r, ps', s')" by simp
    from Cons.IH [OF this] show ?thesis .
  next
    case True
    obtain q s1 where st: "step W cty (tasks ! i) (ps ! i) s = (q, s1)" by force
    from step_frame [OF st] have f1: "files s1 = files s" by simp
    show ?thesis
    proof (cases "raised q")
      case None
      with Cons.prems True st
      have "run_schedule W cty tasks sched (ps[i := q]) s1 = (r, ps', s')" by simp
      from Cons.IH [OF this] f1 show ?thesis by simp
    next
      case (Some e)
      with Cons.prems True st have "s' = s1" by simp
      with f1 show ?thesis by simp
    qed
  qed
qed

lemma gather_files:
  "gather W cty tasks sched s = Some (r, s') \<Longrightarrow> files s' = files s"
proof -
  assume g: "gather W cty tasks sched s = Some (r, s')"
  obtain x ps' s1 where run:
    "run_schedule W cty tasks sched (replicate (length tasks) Pending) s = (x, ps', s1)"
    by (metis prod_cases3)
  from g run have "s' = s1"
    by (auto simp: gather_def split: option.splits if_splits)
  with run_files [OF run] show ?thesis by simp
qed

lemma gather_alone:
  assumes d: "distinct (map fst tasks)"
    and ok: "\<forall>tk \<in> set tasks. \<not> raises (alone W cty s0 tk)"
    and c: "complete sched (length tasks)"
  shows "\<exists>s'. gather W cty tasks sched s0
                = Some (Inr (map (\<lambda>tk. records (alone W cty s0 tk)) tasks), s')
            \<and> (\<forall>tk \<in> set tasks. \<forall>e. failure_of W cty s0 tk = Some e
                  \<longrightarrow> Error_scraping (fst tk) e \<in> set (log s'))"
proof -
  obtain x ps' s' where run:
    "run_schedule W cty tasks sched (replicate (length tasks) Pending) s0 = (x, ps', s')"
    by (metis prod_cases3)
  from run_inv [OF d inv_init run]
  have i: "inv W cty s0 tasks ps' s'"
    and rs: "\<forall>e. x = Some e \<longrightarrow> (\<exists>i < length tasks. ps' ! i = Finished (Inl e))"
    by blast+
  from i have len: "length ps' = length tasks"
    and gd: "\<And>j. j < length tasks \<Longrightarrow> good W cty s0 (tasks ! j) (ps' ! j) s'"
    by (simp_all add: inv_def)
  have none: "x = None"
  proof (cases x)
    case (Some e)
    with rs obtain j where j: "j < length tasks" and f: "ps' ! j = Finished (Inl e)" by blast
    from gd [OF j] f have "alone W cty s0 (tasks ! j) = Inl e" by (simp add: good_def)
    moreover from ok j have "\<not> raises (alone W cty s0 (tasks ! j))" by simp
    ultimately show ?thesis by simp
  qed simp
  from run none have run': 
    "run_schedule W cty tasks sched (replicate (length tasks) Pending) s0 = (None, ps', s')"
    by simp
  have fin: "ps' ! j = Finished (Inr (records (alone W cty s0 (tasks ! j))))
      \<and> (\<forall>e. failure_of W cty s0 (tasks ! j) = Some e
            \<longrightarrow> Error_scraping (fst (tasks ! j)) e \<in> set (log s'))"
    if j: "j < length tasks" for j
  proof -
    from run_rank [OF run'] j
    have "min 2 (rank (replicate (length tasks) Pending ! j) + count_list sched j) \<le> rank (ps' ! j)"
      by simp
    moreover from c j have "2 \<le> count_list sched j" by (simp add: complete_iff)
    ultimately have "2 \<le> rank (ps' ! j)" using j by simp
    then obtain r where r: "ps' ! j = Finished r" by (cases "ps' ! j") simp_all
    with gd [OF j] have a: "r = alone W cty s0 (tasks ! j)"
      and l: "\<forall>e. failure_of W cty s0 (tasks ! j) = Some e
            \<longrightarrow> Error_scraping (fst (tasks ! j)) e \<in> set (log s')"
      by (simp_all add: good_def)
    from ok j have "\<not> raises (alone W cty s0 (tasks ! j))" by simp
    with a have "\<not> raises r" by simp
    then have "r = Inr (records r)" by (cases r) simp_all
    with r a l show ?thesis by simp
  qed
  have all: "list_all (\<lambda>p. returned p \<noteq> None) ps'"
    unfolding list_all_length using fin len by simp
  have vals: "map (\<lambda>p. the (returned p)) ps' = map (\<lambda>tk. records (alone W cty s0 tk)) tasks"
    by (rule nth_equalityI) (simp_all add: len fin)
  have "gather W cty tasks sched s0
          = Some (Inr (map (\<lambda>tk. records (alone W cty s0 tk)) tasks), s')"
    using run' all vals by (simp add: gather_def)
  moreover have "\<forall>tk \<in> set tasks. \<forall>e. failure_of W cty s0 tk = Some e
                  \<longrightarrow> Error_scraping (fst tk) e \<in> set (log s')"
  proof (intro ballI allI impI)
    fix tk e assume "tk \<in> set tasks" and f: "failure_of W cty s0 tk = Some e"
    then obtain j where "j < length tasks" and "tasks ! j = tk"
      by (auto simp: in_set_conv_nth)
    with fin [of j] f show "Error_scraping (fst tk) e \<in> set (log s')" by blast
  qed
  ultimately show ?thesis by blast
qed

section \<open>Exceptions of the adapter\<close>

text \<open>
  Claim C1, as the code has it: the handler of \<^verbatim>\<open>scrape_properties\<close> names
  \<^verbatim>\<open>aiohttp.ClientError\<close> and \<^verbatim>\<open>asyncio.TimeoutError\<close> only. When the cache does
  not answer, the page arrives and the adapter raises on it, the call raises that very
  exception to its caller; the request has been sent, nothing is cached and nothing is
  logged.
\<close>

theorem adapter_exception_escapes:
  assumes "\<not> cache_hit s website cty t"
    and "base_url cty website = Some url"
    and "fetch_url W t url = Inr html"
    and "adapter website (BeautifulSoup W html) = Inl e"
  shows "scrape_properties W cty website t t' s = (Inl e, s\<lparr>requests := requests s @ [url]\<rparr>)"
proof -
  from adapter_Inl [OF assms(4)] have "\<not> is_transport e" by auto
  with assms show ?thesis
    by (simp add: miss_runs_try try_block_def after_request_def except_clause_def)
qed

text \<open>
  The example: a makaan price cell without its \<^verbatim>\<open>unit\<close> span. The call does not
  return a list, it raises \<open>AttributeError\<close>.
\<close>

theorem adapter_exception_escapes_witness:
  "scrape_properties (serving (doc [makaan_card (seller ''Acme'') [Tag ''span'' [''val''] [Text ''45'']]]))
     ''pune'' ''makaan'' 0 1 init
   = (Inl AttributeError,
      init\<lparr>requests := [''https://www.makaan.com/pune-residential-property/buy-property-in-pune-city'']\<rparr>)"
  using adapter_exception_escapes [of init "''makaan''" "''pune''" 0
      "''https://www.makaan.com/pune-residential-property/buy-property-in-pune-city''"
      "serving (doc [makaan_card (seller ''Acme'') [Tag ''span'' [''val''] [Text ''45'']]])"
      "''<html>''" AttributeError 1]
  by (simp add: cache_hit_def cache_get_def base_url_def page_defs dom_defs adapter_defs world_defs)

theorem adapter_exception_counterexample:
  "fst (scrape_properties
          (serving (doc [makaan_card (seller ''Acme'') [Tag ''span'' [''val''] [Text ''45'']]]))
          ''pune'' ''makaan'' 0 1 init) = Inl AttributeError"
  by (simp add: page_defs dom_defs adapter_defs sp_defs world_defs)

section \<open>Transport failures\<close>

text \<open>
  Claim C2, as the code has it: when the cache does not answer and the fetch fails with a
  client error or a timeout, the call returns the empty list, which is also what a page
  without listings returns; the failure shows in the log only. The cache is left as it
  was, and a later call for the same website sends the request again.
\<close>

theorem transport_failure_outcome:
  assumes "\<not> cache_hit s website cty t"
    and "base_url cty website = Some url"
    and "fetch_url W t url = Inl e"
    and "is_transport e"
    and "t \<le> t2"
  shows "scrape_properties W cty website t t' s
           = (Inr [], s\<lparr>requests := requests s @ [url],
                        log := log s @ [Error_scraping website e]\<rparr>)
       \<and> requests (snd (scrape_properties W2 cty website t2 t2'
                          (snd (scrape_properties W cty website t t' s))))
           = requests s @ [url, url]"
proof -
  let ?s1 = "s\<lparr>requests := requests s @ [url], log := log s @ [Error_scraping website e]\<rparr>"
  have first: "scrape_properties W cty website t t' s = (Inr [], ?s1)"
    using assms by (simp add: miss_runs_try try_block_def after_request_def except_clause_def)
  have "\<not> cache_hit ?s1 website cty t2"
    using assms(1,5) by (rule miss_later) simp
  from miss_requests [OF this assms(2)] first show ?thesis by simp
qed

theorem transport_failure_outcome_witness:
  "scrape_properties offline ''pune'' ''makaan'' 0 1 init
     = (Inr [], init\<lparr>requests := requests init @ [makaan_pune],
                     log := log init @ [Error_scraping ''makaan'' TimeoutError]\<rparr>)
   \<and> requests (snd (scrape_properties offline ''pune'' ''makaan'' 5 6
                      (snd (scrape_properties offline ''pune'' ''makaan'' 0 1 init))))
     = requests init @ [makaan_pune, makaan_pune]"
proof -
  have 1: "\<not> cache_hit init ''makaan'' ''pune'' 0"
    by (simp add: cache_hit_def cache_get_def init_def)
  have 2: "base_url ''pune'' ''makaan'' = Some makaan_pune"
    by (simp add: base_url_def makaan_pune_def)
  have 3: "fetch_url offline 0 makaan_pune = Inl TimeoutError"
    by (simp add: offline_def)
  have 4: "is_transport TimeoutError" by simp
  have 5: "(0::nat) \<le> 5" by simp
  show ?thesis by (rule transport_failure_outcome [OF 1 2 3 4 5])
qed

text \<open>The return value of a timeout is the return value of a page without listings.\<close>

theorem transport_failure_counterexample:
  "fst (scrape_properties offline ''pune'' ''makaan'' 0 1 init)
     = fst (scrape_properties (serving (doc [])) ''pune'' ''makaan'' 0 1 init)"
  by (simp add: page_defs dom_defs adapter_defs sp_defs world_defs)

section \<open>The cache\<close>

text \<open>
  Claim C10: when a fetch after a cache miss succeeds with no record, the empty list is
  stored under the key for 3600 time units, and yet no later call, at whatever time,
  finds it: the test on the cached value fails and the request is sent again.
\<close>

theorem empty_result_refetched:
  assumes "\<not> cache_hit s website cty t"
    and "base_url cty website = Some url"
    and "fetch_url W t url = Inr html"
    and "adapter website (BeautifulSoup W html) = Inr []"
    and "scrape_properties W cty website t t' s = (r, s1)"
  shows "r = Inr []
       \<and> cache s1 (cache_key website cty) = Some ([], t' + 3600)
       \<and> \<not> cache_hit s1 website cty t2
       \<and> requests (snd (scrape_properties W2 cty website t2 t2' s1)) = requests s1 @ [url]"
proof -
  have "json_ok []" by (simp add: json_ok_def)
  from fresh_success [OF assms(1-4) this] assms(5)
  have r: "r = Inr []"
    and s1: "s1 = s\<lparr>requests := requests s @ [url],
                     cache := (cache s)(cache_key website cty \<mapsto> ([], t' + 3600))\<rparr>"
    by simp_all
  have miss: "\<not> cache_hit s1 website cty t2"
    by (simp add: s1 cache_hit_def cache_get_def)
  from r s1 miss miss_requests [OF miss assms(2)] show ?thesis by simp
qed

theorem empty_result_refetched_witness:
  "fst (scrape_properties (serving (doc [])) ''pune'' ''makaan'' 0 1 init) = Inr []
   \<and> cache (snd (scrape_properties (serving (doc [])) ''pune'' ''makaan'' 0 1 init))
        (cache_key ''makaan'' ''pune'') = Some ([], 1 + 3600)
   \<and> \<not> cache_hit (snd (scrape_properties (serving (doc [])) ''pune'' ''makaan'' 0 1 init))
        ''makaan'' ''pune'' 2
   \<and> requests (snd (scrape_properties (serving (doc [])) ''pune'' ''makaan'' 2 3
                      (snd (scrape_properties (serving (doc [])) ''pune'' ''makaan'' 0 1 init))))
     = requests (snd (scrape_properties (serving (doc [])) ''pune'' ''makaan'' 0 1 init))
       @ [makaan_pune]"
proof -
  have 1: "\<not> cache_hit init ''makaan'' ''pune'' 0"
    by (simp add: cache_hit_def cache_get_def init_def)
  have 2: "base_url ''pune'' ''makaan'' = Some makaan_pune"
    by (simp add: base_url_def makaan_pune_def)
  have 3: "fetch_url (serving (doc [])) 0 makaan_pune = Inr ''<html>''"
    by (simp add: serving_def)
  have 4: "adapter ''makaan'' (BeautifulSoup (serving (doc [])) ''<html>'') = Inr []"
    by (simp add: serving_def page_defs dom_defs adapter_defs)
  have 5: "scrape_properties (serving (doc [])) ''pune'' ''makaan'' 0 1 init
             = (fst (scrape_properties (serving (doc [])) ''pune'' ''makaan'' 0 1 init),
                snd (scrape_properties (serving (doc [])) ''pune'' ''makaan'' 0 1 init))"
    by simp
  show ?thesis by (rule empty_result_refetched [OF 1 2 3 4 5])
qed

text \<open>
  Claim C4, for a call that returns records: when the first call misses the cache and
  returns a list that is not empty, a second call whose lookup comes less than 3600 time
  units after the store returns the same list and leaves the state as it is, so that no
  request is sent; the first call has sent exactly one.
\<close>

theorem cache_idempotence_nonempty:
  assumes "\<not> cache_hit s website cty t"
    and "scrape_properties W cty website t t' s = (Inr recs, s1)"
    and "recs \<noteq> []"
    and "t2 < t' + 3600"
  shows "scrape_properties W2 cty website t2 t2' s1 = (Inr recs, s1)
       \<and> length (requests s1) = length (requests s) + 1"
proof -
  from fresh_nonempty [OF assms(1-3)] obtain url where
    s1: "s1 = s\<lparr>requests := requests s @ [url],
                 cache := (cache s)(cache_key website cty \<mapsto> (recs, t' + 3600))\<rparr>"
    by blast
  have "cache_get (cache s1) (cache_key website cty) t2 = Some recs"
    using assms(4) by (simp add: s1 cache_get_def)
  from hit_returns [OF this assms(3)] s1 show ?thesis by simp
qed

theorem cache_idempotence_nonempty_witness:
  "scrape_properties offline ''pune'' ''makaan'' 3600 3601
     (init\<lparr>requests := requests init @ [makaan_pune],
           cache := (cache init)(cache_key ''makaan'' ''pune'' \<mapsto> ([acme], 1 + 3600))\<rparr>)
   = (Inr [acme],
      init\<lparr>requests := requests init @ [makaan_pune],
           cache := (cache init)(cache_key ''makaan'' ''pune'' \<mapsto> ([acme], 1 + 3600))\<rparr>)
   \<and> length (requests (init\<lparr>requests := requests init @ [makaan_pune],
           cache := (cache init)(cache_key ''makaan'' ''pune'' \<mapsto> ([acme], 1 + 3600))\<rparr>))
     = length (requests init) + 1"
proof -
  have 1: "\<not> cache_hit init ''makaan'' ''pune'' 0"
    by (simp add: cache_hit_def cache_get_def init_def)
  have 3: "[acme] \<noteq> []" by simp
  have 4: "(3600::nat) < 1 + 3600" by simp
  show ?thesis by (rule cache_idempotence_nonempty [OF 1 scrape_acme 3 4])
qed

text \<open>On a page without listings the two calls send two requests.\<close>

theorem cache_idempotence_counterexample:
  "requests (snd (scrape_properties (serving (doc [])) ''pune'' ''makaan'' 2 3
                    (snd (scrape_properties (serving (doc [])) ''pune'' ''makaan'' 0 1 init))))
     = [makaan_pune, makaan_pune]"
  by (simp add: page_defs dom_defs adapter_defs sp_defs world_defs makaan_pune_def)

text \<open>The lookup of \<open>cache_get\<close> is the lookup of the memory cache after the timers.\<close>

lemma cache_get_expire: "cache_get c k t = memory_get (expire t c) k"
  by (simp add: cache_get_def memory_get_def expire_def split: option.splits)




section \<open>The orchestrator\<close>

lemma tasks_fst: "map fst (map (\<lambda>website. (website, clock website)) ws) = ws"
  by (induction ws) simp_all



lemma alone_mb:
  "alone (serving both_page) (city two_sites) init (''magicbricks'', at_once ''magicbricks'')
     = Inr [asha]"
  by (simp add: alone_def both_page_def asha_def two_sites_def at_once_def
                page_defs dom_defs adapter_defs sp_defs world_defs)

lemma alone_mk:
  "alone (serving both_page) (city two_sites) init (''makaan'', at_once ''makaan'')
     = Inr [acme]"
  by (simp add: alone_def both_page_def acme_def two_sites_def at_once_def
                page_defs dom_defs adapter_defs sp_defs world_defs replace.simps)

lemma offline_run:
  "map_option fst (all_property_data offline two_sites at_once [0, 1, 0, 1] init) = Some (Inr [])"
  by (simp add: gather_defs two_sites_def at_once_def sp_defs world_defs numeral_2_eq_2)

text \<open>
  Claim C6: when the requested websites are pairwise distinct and no call raises, every
  schedule that lets all tasks finish gives the same combined list: the records of the
  first website as its call returns them alone, then those of the second, and so on in the
  order of the list of websites. The order in which the tasks take their steps and finish
  has no part in it.
\<close>

theorem order_determinism:
  assumes "distinct (websites_to_scrape slf)"
    and "\<forall>w \<in> set (websites_to_scrape slf). \<not> raises (alone W (city slf) s (w, clock w))"
    and "complete sched (length (websites_to_scrape slf))"
  shows "map_option fst (all_property_data W slf clock sched s)
           = Some (Inr (concat (map (\<lambda>w. records (alone W (city slf) s (w, clock w)))
                                    (websites_to_scrape slf))))"
proof -
  let ?tasks = "map (\<lambda>website. (website, clock website)) (websites_to_scrape slf)"
  have d: "distinct (map fst ?tasks)" using assms(1) by (simp add: comp_def)
  have ok: "\<forall>tk \<in> set ?tasks. \<not> raises (alone W (city slf) s tk)"
    using assms(2) by auto
  have c: "complete sched (length ?tasks)" using assms(3) by simp
  from gather_alone [OF d ok c] obtain s' where
    "gather W (city slf) ?tasks sched s
       = Some (Inr (map (\<lambda>tk. records (alone W (city slf) s tk)) ?tasks), s')"
    by blast
  then show ?thesis
    by (simp add: all_property_data_def comp_def)
qed

text \<open>Makaan finishes before magicbricks, or after it: the records of magicbricks come first.\<close>

theorem order_determinism_witness:
  "map_option fst (all_property_data (serving both_page) two_sites at_once [1, 0, 1, 0] init)
     = Some (Inr [asha, acme])
   \<and> map_option fst (all_property_data (serving both_page) two_sites at_once [0, 0, 1, 1] init)
     = Some (Inr [asha, acme])"
proof -
  have ws: "websites_to_scrape two_sites = [''magicbricks'', ''makaan'']"
    by (simp add: websites_to_scrape_def two_sites_def)
  have 1: "distinct (websites_to_scrape two_sites)" by (simp add: ws)
  have 2: "\<forall>w \<in> set (websites_to_scrape two_sites).
             \<not> raises (alone (serving both_page) (city two_sites) init (w, at_once w))"
    unfolding ws by (simp add: alone_mb alone_mk)
  have 3: "complete [1, 0, 1, 0] (length (websites_to_scrape two_sites))"
    unfolding ws by (simp add: complete_def numeral_2_eq_2)
  have 4: "complete [0, 0, 1, 1] (length (websites_to_scrape two_sites))"
    unfolding ws by (simp add: complete_def numeral_2_eq_2)
  from order_determinism [OF 1 2 3] order_determinism [OF 1 2 4]
  show ?thesis
    unfolding ws by (simp add: alone_mb alone_mk)
qed



lemma run_unraised:
  "run_schedule W cty tasks sched ps s = (None, ps', s') \<Longrightarrow>
   \<forall>p \<in> set ps. raised p = None \<Longrightarrow> \<forall>p \<in> set ps'. raised p = None"
proof (induction sched arbitrary: ps s)
  case Nil
  then show ?case by simp
next
  case (Cons i sched)
  show ?case
  proof (cases "i < length ps")
    case False
    with Cons.prems(1) have "run_schedule W cty tasks sched ps s = (None, ps', s')" by simp
    from Cons.IH [OF this Cons.prems(2)] show ?thesis .
  next
    case True
    obtain q s1 where st: "step W cty (tasks ! i) (ps ! i) s = (q, s1)" by force
    with Cons.prems(1) True have nr: "raised q = None"
      by (auto split: option.splits)
    with Cons.prems(1) True st
    have run: "run_schedule W cty tasks sched (ps[i := q]) s1 = (None, ps', s')" by simp
    have "\<forall>p \<in> set (ps[i := q]). raised p = None"
    proof
      fix p assume "p \<in> set (ps[i := q])"
      then have "p \<in> insert q (set ps)" using set_update_subset_insert by fastforce
      with nr Cons.prems(2) show "raised p = None" by auto
    qed
    from Cons.IH [OF run this] show ?thesis .
  qed
qed

lemma gather_total:
  assumes c: "complete sched (length tasks)"
  shows "\<exists>r s'. gather W cty tasks sched s = Some (r, s')"
proof -
  obtain x ps' s' where run:
    "run_schedule W cty tasks sched (replicate (length tasks) Pending) s = (x, ps', s')"
    by (metis prod_cases3)
  show ?thesis
  proof (cases x)
    case (Some e)
    with run show ?thesis by (simp add: gather_def)
  next
    case None
    with run have run':
      "run_schedule W cty tasks sched (replicate (length tasks) Pending) s = (None, ps', s')"
      by simp
    from run_rank [OF run'] have len: "length ps' = length tasks"
      and rk: "\<forall>j < length tasks.
                 min 2 (rank (replicate (length tasks) Pending ! j) + count_list sched j)
                   \<le> rank (ps' ! j)"
      by simp_all
    have unr: "\<forall>p \<in> set ps'. raised p = None"
      by (rule run_unraised [OF run']) simp
    have "returned (ps' ! j) \<noteq> None" if j: "j < length tasks" for j
    proof -
      from rk j have "min 2 (rank (replicate (length tasks) Pending ! j) + count_list sched j)
                   \<le> rank (ps' ! j)" by blast
      moreover from c j have "2 \<le> count_list sched j" by (simp add: complete_iff)
      ultimately have "2 \<le> rank (ps' ! j)" using j by simp
      then obtain r where r: "ps' ! j = Finished r" by (cases "ps' ! j") simp_all
      from unr j len have "raised (ps' ! j) = None" by simp
      with r show ?thesis by (cases r) simp_all
    qed
    with len have "list_all (\<lambda>p. returned p \<noteq> None) ps'"
      by (simp add: list_all_length)
    with run' show ?thesis by (simp add: gather_def)
  qed
qed

lemma gather_decides:
  assumes d: "distinct (map fst tasks)"
    and g: "gather W cty tasks sched s0 = Some (r, s')"
  shows "if \<exists>tk \<in> set tasks. raises (alone W cty s0 tk) then raises r
         else r = Inr (map (\<lambda>tk. records (alone W cty s0 tk)) tasks)"
proof -
  obtain x ps' s1 where run:
    "run_schedule W cty tasks sched (replicate (length tasks) Pending) s0 = (x, ps', s1)"
    by (metis prod_cases3)
  from run_inv [OF d inv_init run]
  have i: "inv W cty s0 tasks ps' s1"
    and rs: "\<forall>e. x = Some e \<longrightarrow> (\<exists>i < length tasks. ps' ! i = Finished (Inl e))"
    by blast+
  from i have len: "length ps' = length tasks"
    and gd: "\<And>j. j < length tasks \<Longrightarrow> good W cty s0 (tasks ! j) (ps' ! j) s1"
    by (simp_all add: inv_def)
  show ?thesis
  proof (cases x)
    case (Some e)
    with run g have r: "r = Inl e" by (simp add: gather_def)
    from rs Some obtain j where j: "j < length tasks" and f: "ps' ! j = Finished (Inl e)"
      by blast
    from gd [OF j] f have "alone W cty s0 (tasks ! j) = Inl e" by (simp add: good_def)
    with j have "\<exists>tk \<in> set tasks. raises (alone W cty s0 tk)"
      by (metis nth_mem raises.simps(1))
    with r show ?thesis by simp
  next
    case None
    with run g have all: "list_all (\<lambda>p. returned p \<noteq> None) ps'"
      and r: "r = Inr (map (\<lambda>p. the (returned p)) ps')"
      by (auto simp: gather_def split: if_splits)
    have fin: "alone W cty s0 (tasks ! j) = Inr (the (returned (ps' ! j)))"
      if j: "j < length tasks" for j
    proof -
      from all j len have "returned (ps' ! j) \<noteq> None" by (simp add: list_all_length)
      then obtain v where v: "ps' ! j = Finished (Inr v)"
        by (cases "ps' ! j" rule: returned.cases) simp_all
      with gd [OF j] have "alone W cty s0 (tasks ! j) = Inr v" by (simp add: good_def)
      moreover from v have "the (returned (ps' ! j)) = v" by simp
      ultimately show ?thesis by simp
    qed
    have no: "\<not> (\<exists>tk \<in> set tasks. raises (alone W cty s0 tk))"
    proof
      assume "\<exists>tk \<in> set tasks. raises (alone W cty s0 tk)"
      then obtain j where "j < length tasks" and "raises (alone W cty s0 (tasks ! j))"
        by (auto simp: in_set_conv_nth)
      with fin [of j] show False by simp
    qed
    have "map (\<lambda>p. the (returned p)) ps' = map (\<lambda>tk. records (alone W cty s0 tk)) tasks"
      by (rule nth_equalityI) (simp_all add: len fin)
    with r no show ?thesis by simp
  qed
qed

text \<open>
  Claim C8, as the code has it: under every schedule that lets each task take its steps,
  \<^verbatim>\<open>gather\<close> comes to an end. When it ends with the exception of a task, the method
  ends with that exception and no file is written. When it returns, whatever the combined
  list, also the empty one that transport failures of all websites leave, the method goes
  on to \<^verbatim>\<open>save_to_csv\<close> and returns without an exception: if the path can be opened
  the file holds the line of the column names and then one line for each record, the
  columns being owner, price, property_name when there is a record and none at all when
  the list is empty; if the path cannot be opened the error is logged and no file is
  written. For pairwise distinct websites the first case is the one in which the call of
  some website raises when it runs alone, and in the second the combined list is the
  concatenation of what the calls return alone.
\<close>

theorem sink_invoked:
  assumes "complete sched (length (websites_to_scrape slf))"
  shows "\<exists>r s1. all_property_data W slf clock sched s = Some (r, s1)
           \<and> (case r of
                 Inl e \<Rightarrow>
                   scrape_properties_parallel W slf today clock sched s = Some (Inl e, s1)
                   \<and> files s1 = files s
               | Inr data \<Rightarrow>
                   (\<exists>s2. scrape_properties_parallel W slf today clock sched s = Some (Inr (), s2)
                      \<and> (case open_w W (output_path slf today) of
                            None \<Rightarrow>
                              files s2 (output_path slf today)
                                = Some ((if data = [] then []
                                         else [''owner'', ''price'', ''property_name''])
                                        # map (\<lambda>d. [owner d, cell W (price d), property_name d])
                                              data)
                          | Some e \<Rightarrow>
                              files s2 = files s
                              \<and> Error_saving (output_path slf today) e \<in> set (log s2))))
           \<and> (distinct (websites_to_scrape slf) \<longrightarrow>
                (if \<exists>w \<in> set (websites_to_scrape slf).
                       raises (alone W (city slf) s (w, clock w))
                 then raises r
                 else r = Inr (concat (map (\<lambda>w. records (alone W (city slf) s (w, clock w)))
                                           (websites_to_scrape slf)))))"
proof -
  let ?ws = "websites_to_scrape slf"
  let ?tasks = "map (\<lambda>website. (website, clock website)) ?ws"
  from assms have "complete sched (length ?tasks)" by simp
  from gather_total [OF this] obtain g s1 where
    g: "gather W (city slf) ?tasks sched s = Some (g, s1)" by blast
  from gather_files [OF g] have f: "files s1 = files s" .
  define r where "r = (case g of Inl e \<Rightarrow> Inl e | Inr pd \<Rightarrow> Inr (concat pd))"
  from g have apd: "all_property_data W slf clock sched s = Some (r, s1)"
    by (simp add: all_property_data_def r_def split: sum.splits)
  have 1: "case r of
             Inl e \<Rightarrow>
               scrape_properties_parallel W slf today clock sched s = Some (Inl e, s1)
               \<and> files s1 = files s
           | Inr data \<Rightarrow>
               (\<exists>s2. scrape_properties_parallel W slf today clock sched s = Some (Inr (), s2)
                  \<and> (case open_w W (output_path slf today) of
                        None \<Rightarrow>
                          files s2 (output_path slf today)
                            = Some ((if data = [] then []
                                     else [''owner'', ''price'', ''property_name''])
                                    # map (\<lambda>d. [owner d, cell W (price d), property_name d])
                                          data)
                      | Some e \<Rightarrow>
                          files s2 = files s
                          \<and> Error_saving (output_path slf today) e \<in> set (log s2)))"
    using apd f
    by (auto simp: scrape_properties_parallel_def output_path_def Let_def save_to_csv_def
                   to_csv_def columns_def split: sum.splits option.splits)
  have 2: "if \<exists>w \<in> set ?ws. raises (alone W (city slf) s (w, clock w)) then raises r
           else r = Inr (concat (map (\<lambda>w. records (alone W (city slf) s (w, clock w))) ?ws))"
    if d: "distinct ?ws"
  proof -
    from d have "distinct (map fst ?tasks)" by (simp add: comp_def)
    from gather_decides [OF this g]
    have "if \<exists>tk \<in> set ?tasks. raises (alone W (city slf) s tk) then raises g
          else g = Inr (map (\<lambda>tk. records (alone W (city slf) s tk)) ?tasks)" .
    then show ?thesis
      by (auto simp: r_def comp_def split: sum.splits if_splits)
  qed
  from apd 1 2 show ?thesis by blast
qed

text \<open>All websites time out: the file is written and holds one line without a cell.\<close>

theorem sink_invoked_witness:
  "\<exists>s2. scrape_properties_parallel offline two_sites ''03-Nov-2026'' at_once [0, 1, 0, 1] init
           = Some (Inr (), s2)
       \<and> files s2 (output_path two_sites ''03-Nov-2026'') = Some [[]]"
proof -
  have c: "complete [0, 1, 0, 1] (length (websites_to_scrape two_sites))"
    by (simp add: websites_to_scrape_def two_sites_def complete_def numeral_2_eq_2)
  have o: "open_w offline (output_path two_sites ''03-Nov-2026'') = None"
    by (simp add: offline_def)
  from sink_invoked [OF c, of offline at_once init "''03-Nov-2026''"]
  obtain r s1 where apd: "all_property_data offline two_sites at_once [0, 1, 0, 1] init = Some (r, s1)"
    and cs: "case r of
               Inl e \<Rightarrow>
                 scrape_properties_parallel offline two_sites ''03-Nov-2026'' at_once [0, 1, 0, 1] init
                   = Some (Inl e, s1)
                 \<and> files s1 = files init
             | Inr data \<Rightarrow>
                 (\<exists>s2. scrape_properties_parallel offline two_sites ''03-Nov-2026'' at_once
                         [0, 1, 0, 1] init = Some (Inr (), s2)
                    \<and> (case open_w offline (output_path two_sites ''03-Nov-2026'') of
                          None \<Rightarrow>
                            files s2 (output_path two_sites ''03-Nov-2026'')
                              = Some ((if data = [] then []
                                       else [''owner'', ''price'', ''property_name''])
                                      # map (\<lambda>d. [owner d, cell offline (price d), property_name d])
                                            data)
                        | Some e \<Rightarrow>
                            files s2 = files init
                            \<and> Error_saving (output_path two_sites ''03-Nov-2026'') e \<in> set (log s2)))"
    by blast
  from apd offline_run have "r = Inr []" by simp
  with cs o show ?thesis by simp
qed

text \<open>
  A task that raises leaves the method before \<^verbatim>\<open>save_to_csv\<close>: no file. And the file
  of the run in which all websites time out has no column names.
\<close>

theorem sink_invoked_counterexample:
  "map_option fst (scrape_properties_parallel (serving no_unit_page) only_makaan ''03-Nov-2026''
                     at_once [0, 0] init) = Some (Inl AttributeError)
   \<and> map_option (\<lambda>rs. files (snd rs) (output_path only_makaan ''03-Nov-2026''))
        (scrape_properties_parallel (serving no_unit_page) only_makaan ''03-Nov-2026''
           at_once [0, 0] init) = Some None
   \<and> map_option (\<lambda>rs. files (snd rs) ''data/pune-magicbricks-makaan-03-Nov-2026.csv'')
        (scrape_properties_parallel offline two_sites ''03-Nov-2026'' at_once [0, 1, 0, 1] init)
       = Some (Some [[]])"
  by (simp add: gather_defs two_sites_def only_makaan_def no_unit_page_def at_once_def
                page_defs dom_defs adapter_defs sp_defs world_defs numeral_2_eq_2)

section \<open>The adapters\<close>

lemma container_records_simps:
  "container_records ''magicbricks'' = magicbricks_listing"
  "container_records ''makaan'' = makaan_listing"
  by (auto simp: container_records_def)

lemma collect_all_ok:
  "(\<And>x. x \<in> set xs \<Longrightarrow> f x = Inr (g x)) \<Longrightarrow> collect f xs = Inr (map g xs)"
  by (induction xs) simp_all

lemma collect_some_bad:
  "x \<in> set xs \<Longrightarrow> f x = Inl e \<Longrightarrow> \<exists>e'. collect f xs = Inl e'"
  by (induction xs) (auto split: sum.splits)

lemma collect_map: "collect f (map h xs) = collect (\<lambda>x. f (h x)) xs"
  by (induction xs) (simp_all split: sum.splits)

lemma collect_Inr_all: "collect f xs = Inr ys \<Longrightarrow> x \<in> set xs \<Longrightarrow> \<exists>y. f x = Inr y"
  by (induction xs arbitrary: ys) (auto split: sum.splits)

lemma text_of_None: "text_of x = Inr y \<Longrightarrow> x \<noteq> None"
  by (cases x) simp_all

lemma text_of_inner:
  "find_first nd name (Some c) \<noteq> None \<Longrightarrow>
   text_of (find_first nd name (Some c)) = Inr (inner_text nd name c)"
  by (auto simp: inner_text_def)

lemma magicbricks_listing_ok:
  assumes "\<not> malformed ''magicbricks'' l"
  shows "magicbricks_listing l = Inr (positional_records ''magicbricks'' l)"
proof -
  let ?f = "\<lambda>ow. case text_of (find_first ow ''div'' (Some ''mb-srp__card__ads--name'')) of
                    Inl e \<Rightarrow> Inl e
                  | Inr t \<Rightarrow> Inr (lstrip t ''Owner: '')"
  let ?g = "\<lambda>ow. lstrip (inner_text ow ''div'' ''mb-srp__card__ads--name'') ''Owner: ''"
  let ?os = "find_all l ''div'' (Some ''mb-srp__card__ads'')"
  have "collect ?f ?os = Inr (map ?g ?os)"
  proof (rule collect_all_ok)
    fix x assume "x \<in> set ?os"
    with assms have "find_first x ''div'' (Some ''mb-srp__card__ads--name'') \<noteq> None"
      by (auto simp: malformed_def owner_nodes_def list_ex_iff)
    from text_of_inner [OF this] show "?f x = Inr (?g x)" by simp
  qed
  then show ?thesis
    by (simp add: magicbricks_listing_def positional_records_def positional_record_def
                  owner_nodes_def price_nodes_def title_nodes_def zip3_def Let_def
                  zip_map_map zip_map1 zip_map2 case_prod_beta)
qed

lemma magicbricks_listing_bad:
  assumes "malformed ''magicbricks'' l"
  shows "magicbricks_listing l = Inl AttributeError"
proof -
  let ?f = "\<lambda>ow. case text_of (find_first ow ''div'' (Some ''mb-srp__card__ads--name'')) of
                    Inl e \<Rightarrow> Inl e
                  | Inr t \<Rightarrow> Inr (lstrip t ''Owner: '')"
  let ?os = "find_all l ''div'' (Some ''mb-srp__card__ads'')"
  have "\<exists>e. magicbricks_listing l = Inl e"
  proof (rule ccontr)
    assume "\<not> (\<exists>e. magicbricks_listing l = Inl e)"
    then obtain rs where rs: "magicbricks_listing l = Inr rs"
      by (cases "magicbricks_listing l") auto
    then obtain os where c: "collect ?f ?os = Inr os"
      unfolding magicbricks_listing_def Let_def by (cases "collect ?f ?os") simp_all
    have "find_first x ''div'' (Some ''mb-srp__card__ads--name'') \<noteq> None"
      if x: "x \<in> set ?os" for x
    proof
      assume "find_first x ''div'' (Some ''mb-srp__card__ads--name'') = None"
      then have "?f x = Inl AttributeError" by simp
      with collect_Inr_all [OF c x] show False by simp
    qed
    then have "\<not> malformed ''magicbricks'' l"
      by (simp add: malformed_def owner_nodes_def list_ex_iff)
    with assms show False by simp
  qed
  then obtain e where e: "magicbricks_listing l = Inl e" by blast
  from magicbricks_listing_Inl [OF e] e show ?thesis by simp
qed

lemma makaan_listing_ok:
  assumes "\<not> malformed ''makaan'' l"
  shows "makaan_listing l = Inr (positional_records ''makaan'' l)"
proof -
  let ?ps = "find_all l ''td'' (Some ''price'')"
  let ?ss = "find_all l ''div'' (Some ''seller-info'')"
  from assms have p: "\<And>x. x \<in> set ?ps \<Longrightarrow>
      find_first x ''span'' (Some ''val'') \<noteq> None \<and> find_first x ''span'' (Some ''unit'') \<noteq> None"
    and t: "\<And>x. x \<in> set ?ss \<Longrightarrow> find_first x ''a'' (Some ''seller-name'') \<noteq> None"
    by (auto simp: malformed_def price_nodes_def title_nodes_def list_ex_iff)
  have d: "collect (\<lambda>p. text_of (find_first p ''span'' (Some ''unit''))) ?ps
             = Inr (map (\<lambda>p. inner_text p ''span'' ''unit'') ?ps)"
    by (rule collect_all_ok) (simp add: p text_of_inner)
  have v: "collect text_of (map (\<lambda>p. find_first p ''span'' (Some ''val'')) ?ps)
             = Inr (map (\<lambda>p. inner_text p ''span'' ''val'') ?ps)"
  proof -
    have "collect text_of (map (\<lambda>p. find_first p ''span'' (Some ''val'')) ?ps)
            = collect (\<lambda>p. text_of (find_first p ''span'' (Some ''val''))) ?ps"
      by (rule collect_map)
    also have "\<dots> = Inr (map (\<lambda>p. inner_text p ''span'' ''val'') ?ps)"
      by (rule collect_all_ok) (simp add: p text_of_inner)
    finally show ?thesis .
  qed
  have n: "collect (\<lambda>p. text_of (find_first p ''a'' (Some ''seller-name''))) ?ss
             = Inr (map (\<lambda>p. inner_text p ''a'' ''seller-name'') ?ss)"
    by (rule collect_all_ok) (simp add: t text_of_inner)
  show ?thesis
    by (simp add: makaan_listing_def positional_records_def positional_record_def
                  owner_nodes_def price_nodes_def title_nodes_def zip3_def Let_def d v n
                  zip_map_map zip_map1 zip_map2 zip_same_conv_map case_prod_beta)
qed

lemma makaan_listing_bad:
  assumes "malformed ''makaan'' l"
  shows "makaan_listing l = Inl AttributeError"
proof -
  have "\<exists>e. makaan_listing l = Inl e"
  proof (rule ccontr)
    assume "\<not> (\<exists>e. makaan_listing l = Inl e)"
    then obtain rs where rs: "makaan_listing l = Inr rs" by (cases "makaan_listing l") auto
    let ?ps = "find_all l ''td'' (Some ''price'')"
    let ?ss = "find_all l ''div'' (Some ''seller-info'')"
    from rs obtain ds vs ns where
      d: "collect (\<lambda>p. text_of (find_first p ''span'' (Some ''unit''))) ?ps = Inr ds"
      and v: "collect text_of (map (\<lambda>p. find_first p ''span'' (Some ''val'')) ?ps) = Inr vs"
      and n: "collect (\<lambda>p. text_of (find_first p ''a'' (Some ''seller-name''))) ?ss = Inr ns"
      by (auto simp: makaan_listing_def Let_def split: sum.splits)
    have "\<forall>x \<in> set ?ps. find_first x ''span'' (Some ''unit'') \<noteq> None"
      using collect_Inr_all [OF d] text_of_None by blast
    moreover from v
    have v': "collect (\<lambda>p. text_of (find_first p ''span'' (Some ''val''))) ?ps = Inr vs"
      by (simp add: collect_map)
    have "\<forall>x \<in> set ?ps. find_first x ''span'' (Some ''val'') \<noteq> None"
      using collect_Inr_all [OF v'] text_of_None by blast
    moreover
    have "\<forall>x \<in> set ?ss. find_first x ''a'' (Some ''seller-name'') \<noteq> None"
      using collect_Inr_all [OF n] text_of_None by blast
    ultimately have "\<not> malformed ''makaan'' l"
      by (auto simp: malformed_def price_nodes_def title_nodes_def list_ex_iff)
    with assms show False by simp
  qed
  then obtain e where e: "makaan_listing l = Inl e" by blast
  from makaan_listing_Inl [OF e] e show ?thesis by simp
qed

text \<open>
  Claim C3, as the code has it, for the magicbricks and makaan branches. When some
  container holds a node that lacks the element the code takes the text of, the branch
  raises \<open>AttributeError\<close> and returns no record at all. Otherwise its output is the
  concatenation, in document order, of the records of the containers, where a container
  pairs its owner nodes, price nodes and title nodes by position: it gives as many
  records as the shortest of the three lists has nodes, its \<open>i\<close>-th record is made of
  the \<open>i\<close>-th node of each list, each field being the text of its node, and a
  container in which one of the three selectors finds no node gives no record.
\<close>

theorem partial_triple_exclusion:
  assumes "website = ''magicbricks'' \<or> website = ''makaan''"
  shows "(if list_ex (malformed website) (containers website soup)
          then adapter website soup = Inl AttributeError
          else adapter website soup
                 = Inr (concat (map (positional_records website) (containers website soup))))
       \<and> length (positional_records website l)
           = min (length (owner_nodes website l))
                 (min (length (price_nodes website l)) (length (title_nodes website l)))
       \<and> (\<forall>i < length (positional_records website l).
             positional_records website l ! i
               = positional_record website
                   (owner_nodes website l ! i, price_nodes website l ! i,
                    title_nodes website l ! i))
       \<and> (lacks_field website l \<longrightarrow> positional_records website l = [])"
proof -
  let ?cs = "containers website soup"
  let ?f = "container_records website"
  have ok: "?f c = Inr (positional_records website c)" if "\<not> malformed website c" for c
    using assms that
    by (auto simp: container_records_simps magicbricks_listing_ok makaan_listing_ok)
  have bad: "?f c = Inl AttributeError" if "malformed website c" for c
    using assms that
    by (auto simp: container_records_simps magicbricks_listing_bad makaan_listing_bad)
  have only: "e = AttributeError" if "?f c = Inl e" for c e
    using assms that
    by (auto simp: container_records_simps dest: magicbricks_listing_Inl makaan_listing_Inl)
  have ad: "adapter website soup
              = (case collect ?f ?cs of Inl e \<Rightarrow> Inl e | Inr chunks \<Rightarrow> Inr (concat chunks))"
    using assms
    by (auto simp: adapter_def magicbricks_def makaan_def containers_def container_records_simps)
  have 1: "if list_ex (malformed website) ?cs
           then adapter website soup = Inl AttributeError
           else adapter website soup = Inr (concat (map (positional_records website) ?cs))"
  proof (cases "list_ex (malformed website) ?cs")
    case True
    then obtain c where c: "c \<in> set ?cs" and m: "malformed website c"
      by (auto simp: list_ex_iff)
    from collect_some_bad [of c ?cs ?f AttributeError, OF c bad [OF m]]
    obtain e' where e': "collect ?f ?cs = Inl e'" by blast
    from collect_Inl [OF e'] only have "e' = AttributeError" by blast
    with e' ad True show ?thesis by simp
  next
    case False
    then have "\<And>c. c \<in> set ?cs \<Longrightarrow> ?f c = Inr (positional_records website c)"
      by (auto simp: list_ex_iff intro: ok)
    from collect_all_ok [of ?cs ?f "positional_records website", OF this] ad False
    show ?thesis by simp
  qed
  have 2: "length (positional_records website l)
             = min (length (owner_nodes website l))
                   (min (length (price_nodes website l)) (length (title_nodes website l)))"
    by (simp add: positional_records_def)
  have 3: "\<forall>i < length (positional_records website l).
             positional_records website l ! i
               = positional_record website
                   (owner_nodes website l ! i, price_nodes website l ! i,
                    title_nodes website l ! i)"
    by (simp add: positional_records_def)
  have 4: "lacks_field website l \<longrightarrow> positional_records website l = []"
    using assms
    by (auto simp: lacks_field_def positional_records_def owner_nodes_def price_nodes_def
                   title_nodes_def)
  from 1 2 3 4 show ?thesis by blast
qed

theorem partial_triple_exclusion_witness:
  "adapter ''magicbricks'' asha_page
     = Inr (concat (map (positional_records ''magicbricks'')
                        (containers ''magicbricks'' asha_page)))
   \<and> lacks_field ''magicbricks'' priceless
   \<and> positional_records ''magicbricks'' priceless = []
   \<and> adapter ''makaan'' nameless_page = Inl AttributeError"
proof -
  have 1: "''magicbricks'' = ''magicbricks'' \<or> ''magicbricks'' = ''makaan''" by simp
  have 2: "''makaan'' = ''magicbricks'' \<or> ''makaan'' = ''makaan''" by simp
  have 3: "\<not> list_ex (malformed ''magicbricks'') (containers ''magicbricks'' asha_page)"
    by (simp add: field_defs asha_page_def priceless_def page_defs dom_defs)
  have 4: "lacks_field ''magicbricks'' priceless"
    by (simp add: lacks_field_def priceless_def dom_defs)
  have 5: "list_ex (malformed ''makaan'') (containers ''makaan'' nameless_page)"
    by (simp add: field_defs nameless_page_def page_defs dom_defs)
  from partial_triple_exclusion [OF 1, of asha_page priceless]
       partial_triple_exclusion [OF 2, of nameless_page priceless] 3 4 5
  show ?thesis by simp
qed

text \<open>
  Three pages. A makaan container whose seller block has no \<^verbatim>\<open>seller-name\<close> link
  makes the branch raise, and the record of the container before it is lost with it. A
  magicbricks listing with an empty title gives a record with an empty property name. In
  a magicbricks container with two listings of which the first has no price, the first
  listing gets the price of the second and the second gets no record.
\<close>

theorem partial_triple_exclusion_counterexample:
  "adapter ''makaan'' nameless_page = Inl AttributeError
   \<and> adapter ''makaan'' acme_page = Inr [acme]
   \<and> adapter ''magicbricks'' untitled_page
       = Inr [\<lparr>owner = ''Asha'', price = Str ''50 Lac'', property_name = []\<rparr>]
   \<and> adapter ''magicbricks'' (doc [shifted])
       = Inr [\<lparr>owner = ''Ravi'', price = Str ''50 Lac'', property_name = ''3 BHK Villa''\<rparr>]"
  by (simp add: nameless_page_def acme_page_def acme_def shifted_def untitled_page_def
                page_defs dom_defs adapter_defs replace.simps)

text \<open>
  \<^verbatim>\<open>lstrip("Owner: ")\<close> removes the label when the name does not begin with one of
  the characters of the label.
\<close>

lemma lstrip_owner_label:
  "c \<notin> set ''Owner: '' \<Longrightarrow> lstrip (''Owner: '' @ c # cs) ''Owner: '' = c # cs"
  by (simp add: lstrip_def)

text \<open>
  Claim C7 at the input \<^verbatim>\<open>Owner: Omkar\<close>: the magicbricks branch returns the owner
  \<^verbatim>\<open>mkar\<close>. The \<^verbatim>\<open>O\<close> of the name is one of the characters of the label and is
  removed with it.
\<close>

theorem owner_prefix_failing_input:
  "adapter ''magicbricks'' (doc [magicbricks_card ''Owner: Omkar'' ''50 Lac'' ''2 BHK Flat''])
     = Inr [\<lparr>owner = ''mkar'', price = Str ''50 Lac'', property_name = ''2 BHK Flat''\<rparr>]"
  by (simp add: page_defs dom_defs adapter_defs)

end
